theory Spec2Isabelle
  imports Main "HOL-Library.Char_ord" "HOL-Library.List_Lexorder" "HOL-Library.Sublist"
    "HOL-Library.Multiset"
begin

section \<open>Python values and strings\<close>

text \<open>
  The program (\<^verbatim>\<open>app.py\<close>, \<^verbatim>\<open>json_to_excel.py\<close>) works on untyped Python values:
  records are dicts built by literal, serialised with \<^verbatim>\<open>json.dumps\<close> and read back with
  \<^verbatim>\<open>json.loads\<close>. A dict keeps its insertion order, which decides the column order of
  the report, so a dict is an association list. Floats are left out.

  A Python \<^verbatim>\<open>str\<close> is a sequence of code points; a \<^typ>\<open>char\<close> here stands for the code
  point of the same number, so the model covers the strings over U+0000 .. U+00FF.
\<close>

datatype pyval =
    PNone
  | PBool bool
  | PInt int
  | PStr string
  | PList "pyval list"
  | PDict "(string \<times> pyval) list"

text \<open>Exceptions are values: the class name and a message.\<close>

datatype exn = Exn string string

type_synonym 'a result = "exn + 'a"

definition IndexError :: exn where
  "IndexError = Exn ''IndexError'' ''list index out of range''"

text \<open>\<^verbatim>\<open>xs[i]\<close> for a non-negative literal index: out of range raises IndexError.\<close>

definition py_index :: "'a list \<Rightarrow> nat \<Rightarrow> 'a result" where
  "py_index xs i = (if i < length xs then Inr (xs ! i) else Inl IndexError)"

text \<open>\<^verbatim>\<open>d[k] = v\<close>: an existing key keeps its position, a new key goes last.\<close>

fun dict_set :: "string \<Rightarrow> 'v \<Rightarrow> (string \<times> 'v) list \<Rightarrow> (string \<times> 'v) list" where
  "dict_set k v [] = [(k, v)]"
| "dict_set k v ((k', v') # d) = (if k' = k then (k, v) # d else (k', v') # dict_set k v d)"

text \<open>\<^verbatim>\<open>d.get(k)\<close>: the value, or None.\<close>

definition dict_get :: "(string \<times> pyval) list \<Rightarrow> string \<Rightarrow> pyval" where
  "dict_get d k = (case map_of d k of None \<Rightarrow> PNone | Some v \<Rightarrow> v)"

text \<open>Truthiness of a value, as \<^verbatim>\<open>if data:\<close> and \<^verbatim>\<open>x or {}\<close> test it.\<close>

fun truthy :: "pyval \<Rightarrow> bool" where
  "truthy PNone = False"
| "truthy (PBool b) = b"
| "truthy (PInt i) = (i \<noteq> 0)"
| "truthy (PStr s) = (s \<noteq> [])"
| "truthy (PList xs) = (xs \<noteq> [])"
| "truthy (PDict d) = (d \<noteq> [])"

text \<open>
  \<^verbatim>\<open>str.isspace\<close> for one code point below 256: TAB, LF, VT, FF, CR, FS, GS, RS, US, space,
  NEL (U+0085) and the no-break space (U+00A0).
\<close>

definition py_isspace :: "char \<Rightarrow> bool" where
  "py_isspace c = (of_char c \<in> {9, 10, 11, 12, 13, 28, 29, 30, 31, 32, 133, 160 :: nat})"

definition lstrip :: "string \<Rightarrow> string" where
  "lstrip s = dropWhile py_isspace s"

definition rstrip :: "string \<Rightarrow> string" where
  "rstrip s = rev (dropWhile py_isspace (rev s))"

text \<open>\<^verbatim>\<open>s.strip()\<close>\<close>

definition strip :: "string \<Rightarrow> string" where
  "strip s = rstrip (lstrip s)"

text \<open>\<^verbatim>\<open>s.startswith(p)\<close>\<close>

definition startswith :: "string \<Rightarrow> string \<Rightarrow> bool" where
  "startswith s p = (take (length p) s = p)"

text \<open>\<^verbatim>\<open>sub in s\<close> on strings\<close>

fun py_in :: "string \<Rightarrow> string \<Rightarrow> bool" where
  "py_in sub [] = (sub = [])"
| "py_in sub (c # cs) = (startswith (c # cs) sub \<or> py_in sub cs)"

section \<open>json.dumps\<close>

text \<open>
  \<^verbatim>\<open>json.dumps(data, ensure_ascii=False)\<close> with the default separators \<^verbatim>\<open>", "\<close> and
  \<^verbatim>\<open>": "\<close>. In a string, the quote, the backslash and the code points below U+0020 are
  escaped; every other code point is written as it is.
\<close>

definition hex_digit :: "nat \<Rightarrow> char" where
  "hex_digit n = ''0123456789abcdef'' ! (n mod 16)"

definition json_escape_char :: "char \<Rightarrow> string" where
  "json_escape_char c =
     (if c = CHR ''\"'' then [CHR 0x5C, CHR ''\"'']
      else if c = CHR 0x5C then [CHR 0x5C, CHR 0x5C]
      else if c = CHR 0x0A then [CHR 0x5C, CHR ''n'']
      else if c = CHR 0x0D then [CHR 0x5C, CHR ''r'']
      else if c = CHR 0x09 then [CHR 0x5C, CHR ''t'']
      else if c = CHR 0x08 then [CHR 0x5C, CHR ''b'']
      else if c = CHR 0x0C then [CHR 0x5C, CHR ''f'']
      else if (of_char c :: nat) < 32
        then [CHR 0x5C, CHR ''u'', CHR ''0'', CHR ''0'',
              hex_digit (of_char c div 16), hex_digit (of_char c)]
      else [c])"

definition json_dumps_str :: "string \<Rightarrow> string" where
  "json_dumps_str s = [CHR ''\"''] @ concat (map json_escape_char s) @ [CHR ''\"'']"

definition dec_digit :: "nat \<Rightarrow> char" where
  "dec_digit n = ''0123456789'' ! (n mod 10)"

fun nat_digits :: "nat \<Rightarrow> string" where
  "nat_digits n = (if n < 10 then [dec_digit n] else nat_digits (n div 10) @ [dec_digit n])"

declare nat_digits.simps [simp del]

definition int_repr :: "int \<Rightarrow> string" where
  "int_repr i = (if i < 0 then CHR ''-'' # nat_digits (nat (- i)) else nat_digits (nat i))"

text \<open>\<^verbatim>\<open>", ".join(parts)\<close>\<close>

fun join_comma :: "string list \<Rightarrow> string" where
  "join_comma [] = []"
| "join_comma [x] = x"
| "join_comma (x # y # ys) = x @ '', '' @ join_comma (y # ys)"

fun json_dumps :: "pyval \<Rightarrow> string" where
  "json_dumps PNone = ''null''"
| "json_dumps (PBool b) = (if b then ''true'' else ''false'')"
| "json_dumps (PInt i) = int_repr i"
| "json_dumps (PStr s) = json_dumps_str s"
| "json_dumps (PList xs) = ''['' @ join_comma (map json_dumps xs) @ '']''"
| "json_dumps (PDict d) =
     ''{'' @ join_comma (map (\<lambda>(k, v). json_dumps_str k @ '': '' @ json_dumps v) d) @ ''}''"

section \<open>The parsed page (BeautifulSoup)\<close>

text \<open>
  The tree that \<^verbatim>\<open>BeautifulSoup(text, "html.parser")\<close> builds: a tag with its name, its
  attributes and its children, a text node, or a string that \<^verbatim>\<open>get_text\<close> leaves out
  (a comment, a doctype). The library's parsing itself is a parameter of the model.
\<close>

datatype node =
    Text string
  | Other string
  | Tag string "(string \<times> string) list" "node list"

text \<open>\<^verbatim>\<open>tag.descendants\<close>: every node below the tag, in document order.\<close>

fun descendants :: "node \<Rightarrow> node list" where
  "descendants (Tag n attrs cs) = concat (map (\<lambda>c. c # descendants c) cs)"
| "descendants (Text s) = []"
| "descendants (Other s) = []"

fun is_tag :: "string \<Rightarrow> node \<Rightarrow> bool" where
  "is_tag name (Tag n attrs cs) = (n = name)"
| "is_tag name _ = False"

fun has_id :: "string \<Rightarrow> node \<Rightarrow> bool" where
  "has_id v (Tag n attrs cs) = (map_of attrs ''id'' = Some v)"
| "has_id v _ = False"

text \<open>\<^verbatim>\<open>tag.find_all(name)\<close>\<close>

definition find_all :: "string \<Rightarrow> node \<Rightarrow> node list" where
  "find_all name t = filter (is_tag name) (descendants t)"

text \<open>\<^verbatim>\<open>soup.find(id=v)\<close>: the first tag with that id, or None.\<close>

definition find_id :: "string \<Rightarrow> node \<Rightarrow> node option" where
  "find_id v t = List.find (has_id v) (descendants t)"

fun text_of :: "node \<Rightarrow> string list" where
  "text_of (Text s) = (if strip s = [] then [] else [strip s])"
| "text_of _ = []"

text \<open>
  \<^verbatim>\<open>tag.get_text(strip=True)\<close>: the text nodes below the tag, each stripped, the empty ones
  dropped, joined with nothing between them.
\<close>

definition get_text :: "node \<Rightarrow> string" where
  "get_text t = concat (concat (map text_of (descendants t)))"

section \<open>fetch\_result\<close>

definition bind_res :: "'a result \<Rightarrow> ('a \<Rightarrow> 'b result) \<Rightarrow> 'b result" where
  "bind_res m f = (case m of Inl e \<Rightarrow> Inl e | Inr x \<Rightarrow> f x)"

text \<open>\<^verbatim>\<open>rows[i].find_all("td")[j].get_text(strip=True)\<close>\<close>

definition cell_text :: "node list \<Rightarrow> nat \<Rightarrow> nat \<Rightarrow> string result" where
  "cell_text rows i j =
     bind_res (py_index rows i) (\<lambda>row.
     bind_res (py_index (find_all ''td'' row) j) (\<lambda>cell.
     Inr (get_text cell)))"

text \<open>The dict literal of the \<^verbatim>\<open>try\<close> block, its five values evaluated in order.\<close>

definition student_of :: "node list \<Rightarrow> pyval result" where
  "student_of rows =
     bind_res (cell_text rows 1 1) (\<lambda>hallticket.
     bind_res (cell_text rows 1 3) (\<lambda>gender.
     bind_res (cell_text rows 2 1) (\<lambda>name.
     bind_res (cell_text rows 2 3) (\<lambda>father.
     bind_res (cell_text rows 3 1) (\<lambda>course.
     Inr (PDict [(''hallticket'', PStr hallticket), (''gender'', PStr gender),
                 (''name'', PStr name), (''father'', PStr father),
                 (''course'', PStr course)]))))))"

text \<open>The loop over \<^verbatim>\<open>table4.find_all("tr")[2:]\<close>, appending to \<^verbatim>\<open>marks\<close>.\<close>

fun marks_loop :: "node list \<Rightarrow> pyval list \<Rightarrow> pyval list result" where
  "marks_loop [] marks = Inr marks"
| "marks_loop (row # rest) marks =
     (let cols = find_all ''td'' row in
      if length cols \<ge> 4 then
        bind_res (py_index cols 0) (\<lambda>c0.
        bind_res (py_index cols 1) (\<lambda>c1.
        bind_res (py_index cols 2) (\<lambda>c2.
        bind_res (py_index cols 3) (\<lambda>c3.
        marks_loop rest
          (marks @ [PDict [(''code'', PStr (get_text c0)), (''subject'', PStr (get_text c1)),
                           (''credits'', PStr (get_text c2)), (''grade'', PStr (get_text c3))]])))))
      else marks_loop rest marks)"

definition marks_of :: "node \<Rightarrow> pyval list result" where
  "marks_of soup =
     (case find_id ''AutoNumber4'' soup of
        None \<Rightarrow> Inr []
      | Some table4 \<Rightarrow> marks_loop (drop 2 (find_all ''tr'' table4)) [])"

definition final_result_of :: "node \<Rightarrow> pyval result" where
  "final_result_of soup =
     (case find_id ''AutoNumber5'' soup of
        None \<Rightarrow> Inr PNone
      | Some table5 \<Rightarrow>
          (let rows5 = find_all ''tr'' table5 in
           if length rows5 > 2 then
             bind_res (py_index rows5 2) (\<lambda>row.
               (let cols = find_all ''td'' row in
                if length cols > 2
                then bind_res (py_index cols 2) (\<lambda>c. Inr (PStr (get_text c)))
                else Inr PNone))
           else Inr PNone))"

text \<open>
  The part of \<^verbatim>\<open>fetch_result\<close> after the request: \<open>Inr None\<close> is \<^verbatim>\<open>return None\<close>,
  \<open>Inl e\<close> an exception that leaves the function. \<open>html_parser\<close> stands for
  \<^verbatim>\<open>BeautifulSoup(_, "html.parser")\<close>.
\<close>

definition parse_page :: "(string \<Rightarrow> node) \<Rightarrow> string \<Rightarrow> pyval option result" where
  "parse_page html_parser body =
     (if \<not> py_in ''Personal Details'' body then Inr None
      else
        (let soup = html_parser body in
         case find_id ''AutoNumber3'' soup of
           None \<Rightarrow> Inr None
         | Some table3 \<Rightarrow>
             (case student_of (find_all ''tr'' table3) of
                Inl e \<Rightarrow> Inr None
              | Inr student \<Rightarrow>
                  bind_res (marks_of soup) (\<lambda>marks.
                  bind_res (final_result_of soup) (\<lambda>final_result.
                  Inr (Some (PDict [(''student'', student), (''marks'', PList marks),
                                    (''result'', final_result)])))))))"

text \<open>
  The environment of a run: the HTTP session (the form payload to the response text, or
  the exception of the request), the HTML parser, whether the staging file can be opened,
  and the \<^verbatim>\<open>AUTO_EXCEL\<close> switch.
\<close>

record env =
  session_post :: "(string \<times> string) list \<Rightarrow> string result"
  html_parser :: "string \<Rightarrow> node"
  open_fails :: bool
  AUTO_EXCEL :: bool

definition payload :: "string \<Rightarrow> (string \<times> string) list" where
  "payload htno = [(''mbstatus'', ''SEARCH''), (''htno'', htno), (''Submit.x'', ''25''),
                   (''Submit.y'', ''8'')]"

definition fetch_result :: "env \<Rightarrow> string \<Rightarrow> pyval option result" where
  "fetch_result env htno =
     bind_res (session_post env (payload htno)) (\<lambda>body. parse_page (html_parser env) body)"

section \<open>The staging log and the worker\<close>

datatype message =
    Fetching string
  | Saved string
  | NoResult string
  | Error string exn

record world =
  ndjson_file :: string
  results :: "pyval list"
  console :: "message list"
  auto_excel_event :: bool

definition print :: "message \<Rightarrow> world \<Rightarrow> world" where
  "print m w = w\<lparr>console := console w @ [m]\<rparr>"

definition clear_old_results :: "world \<Rightarrow> world" where
  "clear_old_results w = w\<lparr>ndjson_file := []\<rparr>"

text \<open>
  \<^verbatim>\<open>append_result\<close>: one line, the dump of the record and a line feed, at the end of the
  file. A failure of \<^verbatim>\<open>os.fsync\<close> is swallowed by the source and leaves no trace here; a
  failure to open the file raises before anything is written.
\<close>

definition append_result :: "env \<Rightarrow> pyval \<Rightarrow> world \<Rightarrow> (exn \<times> world) + world" where
  "append_result env data w =
     (if open_fails env then Inl (Exn ''OSError'' ''open'', w)
      else
        (let w1 = w\<lparr>ndjson_file := ndjson_file w @ json_dumps data @ [CHR 0x0A]\<rparr>
         in Inr (if AUTO_EXCEL env then w1\<lparr>auto_excel_event := True\<rparr> else w1)))"

definition placeholder :: "string \<Rightarrow> pyval" where
  "placeholder htno =
     PDict [(''student'', PDict [(''hallticket'', PStr htno)]), (''marks'', PList []),
            (''result'', PNone), (''status'', PStr ''NO_RESULT'')]"

text \<open>The body of the \<^verbatim>\<open>try\<close> in \<^verbatim>\<open>worker\<close>; an exception carries the state it left.\<close>

definition worker_try :: "env \<Rightarrow> string \<Rightarrow> world \<Rightarrow> (exn \<times> world) + world" where
  "worker_try env htno w =
     (case fetch_result env htno of
        Inl e \<Rightarrow> Inl (e, w)
      | Inr data \<Rightarrow>
          if (case data of None \<Rightarrow> False | Some d \<Rightarrow> truthy d) then
            (case data of
               Some d \<Rightarrow>
                 (case append_result env d (w\<lparr>results := results w @ [d]\<rparr>) of
                    Inl ew \<Rightarrow> Inl ew
                  | Inr w2 \<Rightarrow> Inr (print (Saved htno) w2))
             | None \<Rightarrow> Inr w)
          else
            (case append_result env (placeholder htno)
                    (w\<lparr>results := results w @ [placeholder htno]\<rparr>) of
               Inl ew \<Rightarrow> Inl ew
             | Inr w2 \<Rightarrow> Inr (print (NoResult htno) w2)))"

text \<open>\<^verbatim>\<open>worker\<close>: \<open>Inl\<close> would be an exception that leaves the worker.\<close>

definition worker :: "env \<Rightarrow> string \<Rightarrow> world \<Rightarrow> world result" where
  "worker env htno w =
     (case worker_try env htno (print (Fetching htno) w) of
        Inl (e, w') \<Rightarrow> Inr (print (Error htno e) w')
      | Inr w' \<Rightarrow> Inr w')"

text \<open>
  The marks a table row stands for, in the words of the specification: a row with at least
  four cells is one entry made of the stripped texts of its first four cells, a shorter row
  is nothing.
\<close>

definition mark_entry :: "node list \<Rightarrow> pyval" where
  "mark_entry cells =
     PDict [(''code'', PStr (get_text (cells ! 0))), (''subject'', PStr (get_text (cells ! 1))),
            (''credits'', PStr (get_text (cells ! 2))), (''grade'', PStr (get_text (cells ! 3)))]"

definition row_marks :: "node \<Rightarrow> pyval list" where
  "row_marks row =
     (if 4 \<le> length (find_all ''td'' row) then [mark_entry (find_all ''td'' row)] else [])"

section \<open>Sample inputs\<close>

definition td :: "string \<Rightarrow> node" where
  "td s = Tag ''td'' [] [Text s]"

definition tr :: "node list \<Rightarrow> node" where
  "tr cells = Tag ''tr'' [] cells"

definition sample_table3 :: node where
  "sample_table3 =
     Tag ''table'' [(''id'', ''AutoNumber3'')]
       [tr [td ''Personal Details''],
        tr [td ''Hall Ticket No.'', td '' 110624861001 '', td ''Gender'', td ''M''],
        tr [td ''Name'', td ''A B'', td ''Father Name'', td ''C D''],
        tr [td ''Course'', td ''BSC'']]"

definition sample_table4 :: node where
  "sample_table4 =
     Tag ''table'' [(''id'', ''AutoNumber4'')]
       [tr [td ''Marks Details''],
        tr [td ''Code'', td ''Subject'', td ''Credits'', td ''Grade''],
        tr [td ''MATH101'', td '' Algebra'', td ''4'', td ''A''],
        tr [td ''PHYS201'', td ''Optics'']]"

definition sample_page :: node where
  "sample_page =
     Tag ''[document]'' []
      [sample_table3, sample_table4,
       Tag ''table'' [(''id'', ''AutoNumber5'')]
         [tr [td ''Result''],
          tr [td ''Semester'', td ''SGPA'', td ''Result''],
          tr [td ''1'', td ''8.5'', td ''PASSED'']]]"

definition sample_record :: pyval where
  "sample_record =
     PDict [(''student'',
             PDict [(''hallticket'', PStr ''110624861001''), (''gender'', PStr ''M''),
                    (''name'', PStr ''A B''), (''father'', PStr ''C D''),
                    (''course'', PStr ''BSC'')]),
            (''marks'',
             PList [PDict [(''code'', PStr ''MATH101''), (''subject'', PStr ''Algebra''),
                           (''credits'', PStr ''4''), (''grade'', PStr ''A'')]]),
            (''result'', PStr ''PASSED'')]"



definition sample_env :: "string result \<Rightarrow> node \<Rightarrow> bool \<Rightarrow> env" where
  "sample_env resp page fails =
     \<lparr>session_post = (\<lambda>_. resp), html_parser = (\<lambda>_. page), open_fails = fails,
      AUTO_EXCEL = True\<rparr>"

definition empty_world :: world where
  "empty_world = \<lparr>ndjson_file = [], results = [], console = [], auto_excel_event = False\<rparr>"

section \<open>Reading the staging log\<close>

text \<open>
  A text file is read with universal newlines: \<^verbatim>\<open>\r\n\<close> and a lone \<^verbatim>\<open>\r\<close> arrive as
  \<^verbatim>\<open>\n\<close>. Iterating over the file gives the lines, each with its line feed; the last one
  may have none.
\<close>

fun universal_newlines :: "string \<Rightarrow> string" where
  "universal_newlines [] = []"
| "universal_newlines [c] = (if c = CHR 0x0D then [CHR 0x0A] else [c])"
| "universal_newlines (c # d # cs) =
     (if c = CHR 0x0D \<and> d = CHR 0x0A then CHR 0x0A # universal_newlines cs
      else if c = CHR 0x0D then CHR 0x0A # universal_newlines (d # cs)
      else c # universal_newlines (d # cs))"

fun lines_from :: "string \<Rightarrow> string \<Rightarrow> string list" where
  "lines_from cur [] = (if cur = [] then [] else [cur])"
| "lines_from cur (c # cs) =
     (if c = CHR 0x0A then (cur @ [c]) # lines_from [] cs else lines_from (cur @ [c]) cs)"

text \<open>\<^verbatim>\<open>for line in f\<close>\<close>

definition file_lines :: "string \<Rightarrow> string list" where
  "file_lines content = lines_from [] (universal_newlines content)"

text \<open>
  The line boundaries of \<^verbatim>\<open>str.splitlines\<close> below U+0100: LF, VT, FF, CR, FS, GS, RS and
  NEL (U+0085); \<^verbatim>\<open>\r\n\<close> is one boundary.
\<close>

definition is_linebreak :: "char \<Rightarrow> bool" where
  "is_linebreak c = (of_char c \<in> {10, 11, 12, 13, 28, 29, 30, 133 :: nat})"

fun splitlines_from :: "string \<Rightarrow> string \<Rightarrow> string list" where
  "splitlines_from cur [] = (if cur = [] then [] else [cur])"
| "splitlines_from cur [c] = (if is_linebreak c then [cur] else [cur @ [c]])"
| "splitlines_from cur (c # d # cs) =
     (if c = CHR 0x0D \<and> d = CHR 0x0A then cur # splitlines_from [] cs
      else if is_linebreak c then cur # splitlines_from [] (d # cs)
      else splitlines_from (cur @ [c]) (d # cs))"

text \<open>\<^verbatim>\<open>s.splitlines()\<close>\<close>

definition splitlines :: "string \<Rightarrow> string list" where
  "splitlines s = splitlines_from [] s"

text \<open>
  The loop both readers share: strip the line, skip it when empty, append what
  \<^verbatim>\<open>json.loads\<close> returns, skip the line when it raises. \<open>loads\<close> is \<^verbatim>\<open>json.loads\<close>, with
  \<open>None\<close> for an exception.
\<close>

fun read_loop :: "(string \<Rightarrow> pyval option) \<Rightarrow> string list \<Rightarrow> pyval list \<Rightarrow> pyval list" where
  "read_loop loads [] items = items"
| "read_loop loads (line # rest) items =
     (let line' = strip line in
      if line' = [] then read_loop loads rest items
      else
        (case loads line' of
           Some v \<Rightarrow> read_loop loads rest (items @ [v])
         | None \<Rightarrow> read_loop loads rest items))"

text \<open>The reading loop of \<^verbatim>\<open>main\<close> in \<^verbatim>\<open>app.py\<close>.\<close>

definition main_read_log :: "(string \<Rightarrow> pyval option) \<Rightarrow> string \<Rightarrow> pyval list" where
  "main_read_log loads content = read_loop loads (file_lines content) []"

definition JSONDecodeError :: exn where
  "JSONDecodeError = Exn ''JSONDecodeError'' ''''"

text \<open>
  \<^verbatim>\<open>load_items\<close> of \<^verbatim>\<open>json_to_excel.py\<close>: a text that starts with a bracket is one JSON
  document, whose value is returned as it is; any other text is read line by line.
\<close>

definition load_items :: "(string \<Rightarrow> pyval option) \<Rightarrow> string \<Rightarrow> pyval result" where
  "load_items loads content =
     (let txt = strip (universal_newlines content) in
      if txt = [] then Inr (PList [])
      else if startswith txt ''['' then
        (case loads txt of None \<Rightarrow> Inl JSONDecodeError | Some v \<Rightarrow> Inr v)
      else Inr (PList (read_loop loads (splitlines txt) [])))"

section \<open>json.loads\<close>

text \<open>
  A model of \<^verbatim>\<open>json.loads\<close> on the texts whose numbers are integers and whose
  \<^verbatim>\<open>\u\<close> escapes stay below U+0100; \<open>None\<close> is JSONDecodeError. Floats and code points
  from U+0100 are outside the model. The fuel is the length of the text: every recursive
  call comes after at least one consumed character.
\<close>

definition json_ws :: "char \<Rightarrow> bool" where
  "json_ws c = (c = CHR '' '' \<or> c = CHR 0x09 \<or> c = CHR 0x0A \<or> c = CHR 0x0D)"

definition skip_ws :: "string \<Rightarrow> string" where
  "skip_ws s = dropWhile json_ws s"

definition hex_value :: "char \<Rightarrow> nat option" where
  "hex_value c =
     (let n = of_char c :: nat in
      if 48 \<le> n \<and> n \<le> 57 then Some (n - 48)
      else if 97 \<le> n \<and> n \<le> 102 then Some (n - 87)
      else if 65 \<le> n \<and> n \<le> 70 then Some (n - 55)
      else None)"

definition unescape :: "char \<Rightarrow> char option" where
  "unescape e =
     (if e = CHR 0x22 then Some (CHR 0x22)
      else if e = CHR 0x5C then Some (CHR 0x5C)
      else if e = CHR ''/'' then Some (CHR ''/'')
      else if e = CHR ''b'' then Some (CHR 0x08)
      else if e = CHR ''f'' then Some (CHR 0x0C)
      else if e = CHR ''n'' then Some (CHR 0x0A)
      else if e = CHR ''r'' then Some (CHR 0x0D)
      else if e = CHR ''t'' then Some (CHR 0x09)
      else None)"

text \<open>The text after the opening quote, to the decoded string and the text after the closing quote.\<close>

fun scan_string :: "string \<Rightarrow> string \<Rightarrow> (string \<times> string) option" where
  "scan_string acc [] = None"
| "scan_string acc (c # cs) =
     (if c = CHR 0x22 then Some (acc, cs)
      else if c = CHR 0x5C then
        (case cs of
           [] \<Rightarrow> None
         | e # es \<Rightarrow>
             if e = CHR ''u'' then
               (case es of
                  h1 # h2 # h3 # h4 # rest \<Rightarrow>
                    (case (hex_value h1, hex_value h2, hex_value h3, hex_value h4) of
                       (Some a, Some b, Some c, Some d) \<Rightarrow>
                         if a = 0 \<and> b = 0 then scan_string (acc @ [char_of (16 * c + d)]) rest
                         else None
                     | _ \<Rightarrow> None)
                | _ \<Rightarrow> None)
             else
               (case unescape e of
                  None \<Rightarrow> None
                | Some ch \<Rightarrow> scan_string (acc @ [ch]) es))
      else if (of_char c :: nat) < 32 then None
      else scan_string (acc @ [c]) cs)"

definition is_digit :: "char \<Rightarrow> bool" where
  "is_digit c = (48 \<le> (of_char c :: nat) \<and> (of_char c :: nat) \<le> 57)"

definition digits_value :: "string \<Rightarrow> int" where
  "digits_value ds = foldl (\<lambda>n c. 10 * n + (of_char c - 48)) 0 ds"

text \<open>
  The number at the head of the text, by the pattern \<^verbatim>\<open>-?(0|[1-9][0-9]*)\<close>. A fraction or
  an exponent after it makes a float: outside the model.
\<close>

definition float_follows :: "string \<Rightarrow> bool" where
  "float_follows rest =
     (case rest of
        c # d # ds \<Rightarrow>
          (c = CHR ''.'' \<and> is_digit d) \<or>
          ((c = CHR ''e'' \<or> c = CHR ''E'') \<and>
             (is_digit d \<or> ((d = CHR ''+'' \<or> d = CHR ''-'') \<and> (case ds of x # xs \<Rightarrow> is_digit x | [] \<Rightarrow> False))))
      | _ \<Rightarrow> False)"

definition scan_number :: "string \<Rightarrow> (pyval \<times> string) option" where
  "scan_number s =
     (let neg = (case s of c # cs \<Rightarrow> c = CHR ''-'' | [] \<Rightarrow> False);
          s1 = (if neg then tl s else s);
          ds = (case s1 of
                  c # cs \<Rightarrow> if c = CHR ''0'' then [c] else takeWhile is_digit s1
                | [] \<Rightarrow> []);
          rest = drop (length ds) s1
      in if ds = [] \<or> float_follows rest then None
         else Some (PInt (if neg then - digits_value ds else digits_value ds), rest))"

fun parse_value :: "nat \<Rightarrow> string \<Rightarrow> (pyval \<times> string) option"
  and parse_members :: "nat \<Rightarrow> (string \<times> pyval) list \<Rightarrow> string \<Rightarrow> (pyval \<times> string) option"
  and parse_elements :: "nat \<Rightarrow> pyval list \<Rightarrow> string \<Rightarrow> (pyval \<times> string) option"
where
  "parse_value 0 s = None"
| "parse_value (Suc n) s =
     (case s of
        [] \<Rightarrow> None
      | c # cs \<Rightarrow>
          if c = CHR 0x22 then
            (case scan_string [] cs of None \<Rightarrow> None | Some (str, rest) \<Rightarrow> Some (PStr str, rest))
          else if c = CHR ''{'' then
            (case skip_ws cs of
               [] \<Rightarrow> None
             | d # ds \<Rightarrow>
                 if d = CHR ''}'' then Some (PDict [], ds)
                 else if d = CHR 0x22 then parse_members n [] ds
                 else None)
          else if c = CHR ''['' then
            (case skip_ws cs of
               [] \<Rightarrow> None
             | d # ds \<Rightarrow>
                 if d = CHR '']'' then Some (PList [], ds)
                 else parse_elements n [] (d # ds))
          else if startswith s ''null'' then Some (PNone, drop 4 s)
          else if startswith s ''true'' then Some (PBool True, drop 4 s)
          else if startswith s ''false'' then Some (PBool False, drop 5 s)
          else scan_number s)"
| "parse_members 0 pairs s = None"
| "parse_members (Suc n) pairs s =
     (case scan_string [] s of
        None \<Rightarrow> None
      | Some (key, r1) \<Rightarrow>
          (case skip_ws r1 of
             [] \<Rightarrow> None
           | c # r2 \<Rightarrow>
               if c \<noteq> CHR '':'' then None
               else
                 (case parse_value n (skip_ws r2) of
                    None \<Rightarrow> None
                  | Some (v, r3) \<Rightarrow>
                      (case skip_ws r3 of
                         [] \<Rightarrow> None
                       | d # r4 \<Rightarrow>
                           if d = CHR ''}'' then Some (PDict (dict_set key v pairs), r4)
                           else if d = CHR '','' then
                             (case skip_ws r4 of
                                [] \<Rightarrow> None
                              | q # r5 \<Rightarrow>
                                  if q = CHR 0x22 then parse_members n (dict_set key v pairs) r5
                                  else None)
                           else None))))"
| "parse_elements 0 vals s = None"
| "parse_elements (Suc n) vals s =
     (case parse_value n s of
        None \<Rightarrow> None
      | Some (v, r1) \<Rightarrow>
          (case skip_ws r1 of
             [] \<Rightarrow> None
           | d # r2 \<Rightarrow>
               if d = CHR '']'' then Some (PList (vals @ [v]), r2)
               else if d = CHR '','' then parse_elements n (vals @ [v]) (skip_ws r2)
               else None))"

definition json_loads :: "string \<Rightarrow> pyval option" where
  "json_loads s =
     (case parse_value (Suc (length s)) (skip_ws s) of
        None \<Rightarrow> None
      | Some (v, rest) \<Rightarrow> if skip_ws rest = [] then Some v else None)"

section \<open>Data frames (pandas)\<close>

text \<open>
  What the report builder uses of pandas. A cell holds a Python object or the missing value
  NaN; a row gives the cell of each column name; a frame is its column labels, in order,
  and its rows. The operations are modelled for the frames of a log of result records:
  text and None in the cells, text in the hall tickets and subject codes, no column label
  shared by the two sides of a merge other than the key.
\<close>

datatype cell = NaN | Val pyval

record frame =
  columns :: "string list"
  rows :: "(string \<Rightarrow> cell) list"

text \<open>\<^verbatim>\<open>pd.isna\<close>\<close>

definition isna :: "cell \<Rightarrow> bool" where
  "isna c = (c = NaN \<or> c = Val PNone)"

text \<open>The distinct elements, in the order of their first appearance.\<close>

fun first_seen :: "'a list \<Rightarrow> 'a list \<Rightarrow> 'a list" where
  "first_seen seen [] = seen"
| "first_seen seen (x # xs) =
     (if x \<in> set seen then first_seen seen xs else first_seen (seen @ [x]) xs)"

definition unique :: "'a list \<Rightarrow> 'a list" where
  "unique xs = first_seen [] xs"

text \<open>
  \<^verbatim>\<open>pd.DataFrame(list_of_dicts)\<close>: the columns are the keys in the order of their first
  appearance, a key a dict lacks is NaN in its row.
\<close>

definition DataFrame :: "(string \<times> pyval) list list \<Rightarrow> frame" where
  "DataFrame dicts =
     \<lparr>columns = unique (concat (map (map fst) dicts)),
      rows = map (\<lambda>d c. case map_of d c of None \<Rightarrow> NaN | Some v \<Rightarrow> Val v) dicts\<rparr>"

text \<open>\<^verbatim>\<open>pd.DataFrame(columns=cols)\<close>\<close>

definition empty_frame :: "string list \<Rightarrow> frame" where
  "empty_frame cols = \<lparr>columns = cols, rows = []\<rparr>"

text \<open>\<^verbatim>\<open>df.empty\<close>\<close>

definition is_empty :: "frame \<Rightarrow> bool" where
  "is_empty df = (columns df = [] \<or> rows df = [])"

text \<open>\<^verbatim>\<open>df.reindex(columns=cols)\<close>: a label the frame lacks becomes a column of NaN.\<close>

definition reindex :: "string list \<Rightarrow> frame \<Rightarrow> frame" where
  "reindex cols df =
     \<lparr>columns = cols,
      rows = map (\<lambda>r c. if c \<in> set (columns df) then r c else NaN) (rows df)\<rparr>"

text \<open>\<^verbatim>\<open>df.fillna(v)\<close>\<close>

definition fillna :: "pyval \<Rightarrow> frame \<Rightarrow> frame" where
  "fillna v df =
     \<lparr>columns = columns df,
      rows = map (\<lambda>r c. if c \<in> set (columns df) \<and> isna (r c) then Val v else r c) (rows df)\<rparr>"

text \<open>\<^verbatim>\<open>df[c]\<close>, as the list of its values.\<close>

definition column :: "frame \<Rightarrow> string \<Rightarrow> cell list" where
  "column df c = map (\<lambda>r. r c) (rows df)"

text \<open>The text of a key cell.\<close>

definition key_str :: "cell \<Rightarrow> string" where
  "key_str c = (case c of Val (PStr s) \<Rightarrow> s | _ \<Rightarrow> [])"

text \<open>
  \<^verbatim>\<open>df.pivot_table(index="hallticket", columns="code", values=v, aggfunc="first")\<close> on
  a frame without missing cells: the index is the sorted hall tickets, the columns are the
  sorted codes, a cell is the first value of its hall ticket and code, NaN when there is
  none.
\<close>

record pivot =
  pcolumns :: "string list"
  pindex :: "string list"
  pcell :: "string \<Rightarrow> string \<Rightarrow> cell"

definition first_value :: "frame \<Rightarrow> string \<Rightarrow> string \<Rightarrow> string \<Rightarrow> cell" where
  "first_value df v h c =
     (case filter (\<lambda>r. key_str (r ''hallticket'') = h \<and> key_str (r ''code'') = c \<and> \<not> isna (r v))
             (rows df) of
        [] \<Rightarrow> NaN
      | r # _ \<Rightarrow> r v)"

definition pivot_table :: "frame \<Rightarrow> string \<Rightarrow> pivot" where
  "pivot_table df v =
     \<lparr>pcolumns = sort (remdups (map key_str (column df ''code''))),
      pindex = sort (remdups (map key_str (column df ''hallticket''))),
      pcell = first_value df v\<rparr>"

text \<open>
  \<^verbatim>\<open>p.reset_index()\<close> after the columns were renamed with a prefix (the empty prefix
  leaves the codes as they are): the index becomes the column \<^verbatim>\<open>hallticket\<close>.
\<close>

definition reset_index :: "string \<Rightarrow> pivot \<Rightarrow> frame" where
  "reset_index pre p =
     \<lparr>columns = ''hallticket'' # map (\<lambda>c. pre @ c) (pcolumns p),
      rows = map (\<lambda>h col.
                if col = ''hallticket'' then Val (PStr h)
                else (case filter (\<lambda>c. pre @ c = col) (pcolumns p) of
                        [] \<Rightarrow> NaN
                      | c # _ \<Rightarrow> pcell p h c))
             (pindex p)\<rparr>"

text \<open>
  \<^verbatim>\<open>left.merge(right, on="hallticket", how="left")\<close>: every left row, in the order of
  the left frame, once for each right row with its hall ticket, and once with NaN in the
  right columns when there is none.
\<close>

definition merge_left :: "frame \<Rightarrow> frame \<Rightarrow> frame" where
  "merge_left left right =
     \<lparr>columns = columns left @ filter (\<lambda>c. c \<noteq> ''hallticket'') (columns right),
      rows = concat (map (\<lambda>l.
               (case filter (\<lambda>r. r ''hallticket'' = l ''hallticket'') (rows right) of
                  [] \<Rightarrow> [\<lambda>c. if c \<in> set (columns left) then l c else NaN]
                | ms \<Rightarrow> map (\<lambda>r c. if c \<in> set (columns left) then l c else r c) ms))
             (rows left))\<rparr>"

text \<open>
  \<^verbatim>\<open>list(df["code"].value_counts().index)\<close>: the codes by falling count. Equal counts
  stay in the order of first appearance here; pandas leaves their order to the sort.
\<close>

definition value_counts_index :: "string list \<Rightarrow> string list" where
  "value_counts_index codes = sort_key (\<lambda>c. - int (count_list codes c)) (unique codes)"

subsection \<open>Sorting by hall ticket\<close>

text \<open>
  \<^verbatim>\<open>int(s)\<close> on a string: blanks around, a sign, digits, single underscores between
  digits.
\<close>

fun digits_ok :: "string \<Rightarrow> bool" where
  "digits_ok [] = False"
| "digits_ok [c] = is_digit c"
| "digits_ok (c # d # cs) =
     (is_digit c \<and> (if d = CHR ''_'' then digits_ok cs else digits_ok (d # cs)))"

definition py_int :: "string \<Rightarrow> int option" where
  "py_int s =
     (let t = strip s;
          neg = (case t of c # cs \<Rightarrow> c = CHR ''-'' | [] \<Rightarrow> False);
          signed = (case t of c # cs \<Rightarrow> c = CHR ''-'' \<or> c = CHR ''+'' | [] \<Rightarrow> False);
          body = (if signed then tl t else t)
      in if digits_ok body
         then Some ((if neg then -1 else 1) * digits_value (filter is_digit body))
         else None)"

definition in_int64 :: "int \<Rightarrow> bool" where
  "in_int64 i = (- (2 ^ 63) \<le> i \<and> i < 2 ^ 63)"

text \<open>One value of \<^verbatim>\<open>series.astype(int)\<close>; \<open>None\<close> is the exception that ends the conversion.\<close>

definition cell_int :: "cell \<Rightarrow> int option" where
  "cell_int c =
     (case c of
        Val (PStr s) \<Rightarrow> (case py_int s of Some i \<Rightarrow> if in_int64 i then Some i else None | None \<Rightarrow> None)
      | Val (PInt i) \<Rightarrow> if in_int64 i then Some i else None
      | Val (PBool b) \<Rightarrow> Some (if b then 1 else 0)
      | _ \<Rightarrow> None)"

fun astype_int :: "cell list \<Rightarrow> int list option" where
  "astype_int [] = Some []"
| "astype_int (c # cs) =
     (case cell_int c of
        None \<Rightarrow> None
      | Some i \<Rightarrow> (case astype_int cs of None \<Rightarrow> None | Some is \<Rightarrow> Some (i # is)))"

definition TypeError :: exn where
  "TypeError = Exn ''TypeError'' ''''"

definition AttributeError :: exn where
  "AttributeError = Exn ''AttributeError'' ''''"

definition KeyError :: exn where
  "KeyError = Exn ''KeyError'' ''''"

definition ValueError :: exn where
  "ValueError = Exn ''ValueError'' ''''"

definition is_str_cell :: "cell \<Rightarrow> bool" where
  "is_str_cell c = (case c of Val (PStr s) \<Rightarrow> True | _ \<Rightarrow> False)"

text \<open>
  \<^verbatim>\<open>df.sort_values("hallticket")\<close> on a column of objects: the text cells by string
  order, the missing ones last; a cell of another kind does not compare with text.
\<close>

definition sort_values_str :: "frame \<Rightarrow> frame result" where
  "sort_values_str df =
     (let present = filter (\<lambda>r. \<not> isna (r ''hallticket'')) (rows df);
          missing = filter (\<lambda>r. isna (r ''hallticket'')) (rows df)
      in if list_all (\<lambda>r. is_str_cell (r ''hallticket'')) present
         then Inr (df\<lparr>rows := sort_key (\<lambda>r. key_str (r ''hallticket'')) present @ missing\<rparr>)
         else Inl TypeError)"

text \<open>
  The \<^verbatim>\<open>try\<close> at the end of both builders: sort by the hall tickets as integers; when
  the conversion raises, sort by the hall tickets as they are. A frame without the column
  raises KeyError in the handler too.
\<close>

definition sort_by_hallticket :: "frame \<Rightarrow> frame result" where
  "sort_by_hallticket df =
     (if ''hallticket'' \<notin> set (columns df) then Inl KeyError
      else
        (case astype_int (column df ''hallticket'') of
           Some keys \<Rightarrow> Inr (df\<lparr>rows := map snd (sort_key fst (zip keys (rows df)))\<rparr>)
         | None \<Rightarrow> sort_values_str df))"

subsection \<open>Writing a sheet\<close>

text \<open>
  What \<^verbatim>\<open>to_excel(index=False)\<close> leaves in a sheet: the header and the rows. Missing
  values are written as the empty string, and an empty string is an empty cell in the
  file. A dict or a list in a cell is refused by the writer.
\<close>

datatype xl = Empty | Str string | Num int | Bool bool

record sheet =
  header :: "string list"
  sheet_rows :: "xl list list"

definition xl_of :: "cell \<Rightarrow> xl result" where
  "xl_of c =
     (case c of
        NaN \<Rightarrow> Inr Empty
      | Val PNone \<Rightarrow> Inr Empty
      | Val (PStr s) \<Rightarrow> Inr (if s = [] then Empty else Str s)
      | Val (PInt i) \<Rightarrow> Inr (Num i)
      | Val (PBool b) \<Rightarrow> Inr (Bool b)
      | _ \<Rightarrow> Inl ValueError)"

fun sequence :: "'a result list \<Rightarrow> 'a list result" where
  "sequence [] = Inr []"
| "sequence (m # ms) = bind_res m (\<lambda>x. bind_res (sequence ms) (\<lambda>xs. Inr (x # xs)))"

definition to_excel :: "frame \<Rightarrow> sheet result" where
  "to_excel df =
     bind_res (sequence (map (\<lambda>r. sequence (map (\<lambda>c. xl_of (r c)) (columns df))) (rows df)))
       (\<lambda>cells. Inr \<lparr>header = columns df, sheet_rows = cells\<rparr>)"

type_synonym workbook = "(string \<times> sheet) list"

section \<open>The report builders\<close>

subsection \<open>From the records to the rows\<close>

text \<open>\<^verbatim>\<open>flatten_top\<close>, the loop over \<^verbatim>\<open>item.items()\<close>; both files define it alike.\<close>

fun flatten_loop :: "(string \<times> pyval) list \<Rightarrow> (string \<times> pyval) list \<Rightarrow> (string \<times> pyval) list" where
  "flatten_loop [] flat = flat"
| "flatten_loop ((k, v) # rest) flat =
     (case v of
        PDict d \<Rightarrow> flatten_loop rest (fold (\<lambda>(k2, v2) f. dict_set (k @ ''.'' @ k2) v2 f) d flat)
      | PList xs \<Rightarrow> flatten_loop rest flat
      | _ \<Rightarrow> flatten_loop rest (dict_set k v flat))"

definition flatten_top :: "pyval \<Rightarrow> (string \<times> pyval) list result" where
  "flatten_top item = (case item of PDict d \<Rightarrow> Inr (flatten_loop d []) | _ \<Rightarrow> Inl AttributeError)"

text \<open>\<^verbatim>\<open>(item.get("student") or {}).get("hallticket")\<close>\<close>

definition hallticket_of :: "pyval \<Rightarrow> pyval result" where
  "hallticket_of item =
     (case item of
        PDict d \<Rightarrow>
          (let s = dict_get d ''student'' in
           if \<not> truthy s then Inr PNone
           else (case s of PDict sd \<Rightarrow> Inr (dict_get sd ''hallticket'') | _ \<Rightarrow> Inl AttributeError))
      | _ \<Rightarrow> Inl AttributeError)"

text \<open>What \<^verbatim>\<open>for m in item.get("marks", [])\<close> runs over.\<close>

definition marks_iter :: "pyval \<Rightarrow> pyval list result" where
  "marks_iter item =
     (case item of
        PDict d \<Rightarrow>
          (case map_of d ''marks'' of
             None \<Rightarrow> Inr []
           | Some (PList ms) \<Rightarrow> Inr ms
           | Some (PStr s) \<Rightarrow> Inr (map (\<lambda>c. PStr [c]) s)
           | Some (PDict md) \<Rightarrow> Inr (map (\<lambda>kv. PStr (fst kv)) md)
           | Some _ \<Rightarrow> Inl TypeError)
      | _ \<Rightarrow> Inl AttributeError)"

text \<open>One row of the marks table: the hall ticket, then the items of \<^verbatim>\<open>m or {}\<close>.\<close>

definition mark_row :: "pyval \<Rightarrow> pyval \<Rightarrow> (string \<times> pyval) list result" where
  "mark_row ht m =
     (if \<not> truthy m then Inr [(''hallticket'', ht)]
      else (case m of
              PDict md \<Rightarrow> Inr (fold (\<lambda>(mk, mv) r. dict_set mk mv r) md [(''hallticket'', ht)])
            | _ \<Rightarrow> Inl AttributeError))"

text \<open>The loop over the records, filling the two lists of rows.\<close>

fun collect ::
  "pyval list \<Rightarrow> (string \<times> pyval) list list \<Rightarrow> (string \<times> pyval) list list \<Rightarrow>
   ((string \<times> pyval) list list \<times> (string \<times> pyval) list list) result" where
  "collect [] results_rows marks_rows = Inr (results_rows, marks_rows)"
| "collect (item # rest) results_rows marks_rows =
     bind_res (flatten_top item) (\<lambda>flat.
     bind_res (hallticket_of item) (\<lambda>ht.
     bind_res (marks_iter item) (\<lambda>ms.
     bind_res (sequence (map (mark_row ht) ms)) (\<lambda>mrs.
     collect rest (results_rows @ [dict_set ''hallticket'' ht flat]) (marks_rows @ mrs)))))"

definition expected_mark_cols :: "string list" where
  "expected_mark_cols = [''hallticket'', ''code'', ''subject'', ''credits'', ''grade'']"

text \<open>The marks table with its standard columns and no missing cell.\<close>

definition marks_frame :: "(string \<times> pyval) list list \<Rightarrow> frame" where
  "marks_frame marks_rows =
     (let df_marks = DataFrame marks_rows in
      if is_empty df_marks then empty_frame expected_mark_cols
      else fillna (PStr []) (reindex expected_mark_cols df_marks))"

text \<open>\<^verbatim>\<open>pd.DataFrame({"json": [json.dumps(i, ensure_ascii=False) for i in items]})\<close>\<close>

definition raw_frame :: "pyval list \<Rightarrow> frame" where
  "raw_frame items =
     \<lparr>columns = [''json''],
      rows = map (\<lambda>i c. if c = ''json'' then Val (PStr (json_dumps i)) else NaN) items\<rparr>"

text \<open>The four sheets, in the order they are written.\<close>

definition write_sheets :: "frame \<Rightarrow> frame \<Rightarrow> frame \<Rightarrow> frame \<Rightarrow> workbook result" where
  "write_sheets df_results df_grade_only df_marks raw_df =
     bind_res (to_excel df_results) (\<lambda>s1.
     bind_res (to_excel df_grade_only) (\<lambda>s2.
     bind_res (to_excel df_marks) (\<lambda>s3.
     bind_res (to_excel raw_df) (\<lambda>s4.
     Inr [(''results'', s1), (''grades'', s2), (''marks'', s3), (''raw'', s4)]))))"

subsection \<open>The final conversion of \<^verbatim>\<open>main\<close> (app.py)\<close>

definition core_pref :: "string list" where
  "core_pref = [''hallticket'', ''student.name'', ''student.father'', ''student.gender'',
                ''student.course'', ''result'', ''status'']"

definition is_pivot_col :: "string \<Rightarrow> bool" where
  "is_pivot_col c =
     (startswith c ''grade_'' \<or> startswith c ''credits_'' \<or> startswith c ''subject_'')"

definition codes_sorted_of :: "frame \<Rightarrow> string list" where
  "codes_sorted_of df_marks = value_counts_index (map key_str (column df_marks ''code''))"

definition subject_cols_of :: "string list \<Rightarrow> string list \<Rightarrow> string list" where
  "subject_cols_of cols codes_sorted =
     concat (map (\<lambda>code. filter (\<lambda>p. p \<in> set cols)
                    [''grade_'' @ code, ''credits_'' @ code, ''subject_'' @ code])
             codes_sorted)"

definition final_cols :: "string list \<Rightarrow> string list \<Rightarrow> string list" where
  "final_cols cols codes_sorted =
     (let core_cols = filter (\<lambda>c. c \<in> set cols) core_pref;
          subject_cols = subject_cols_of cols codes_sorted;
          remaining = filter (\<lambda>c. is_pivot_col c \<and> c \<notin> set subject_cols) cols;
          subject_cols' = subject_cols @ sort remaining;
          other_cols = filter (\<lambda>c. c \<notin> set (core_cols @ subject_cols')) cols
      in core_cols @ subject_cols' @ other_cols)"

text \<open>The three pivots of the marks, merged into the results on the hall ticket.\<close>

definition main_merged :: "frame \<Rightarrow> frame \<Rightarrow> frame" where
  "main_merged df_results df_marks =
     (let df_grade_pivot = reset_index ''grade_'' (pivot_table df_marks ''grade'');
          df_credits_pivot = reset_index ''credits_'' (pivot_table df_marks ''credits'');
          df_subject_pivot = reset_index ''subject_'' (pivot_table df_marks ''subject'')
      in merge_left (merge_left (merge_left df_results df_grade_pivot) df_credits_pivot)
           df_subject_pivot)"

definition main_reordered :: "frame \<Rightarrow> frame \<Rightarrow> frame" where
  "main_reordered df_results df_marks =
     (let merged = main_merged df_results df_marks
      in reindex (final_cols (columns merged) (codes_sorted_of df_marks)) merged)"

text \<open>The frame of the results sheet when there are marks: merge, reorder, sort.\<close>

definition main_results :: "frame \<Rightarrow> frame \<Rightarrow> frame result" where
  "main_results df_results df_marks = sort_by_hallticket (main_reordered df_results df_marks)"

definition main_convert :: "pyval list \<Rightarrow> workbook result" where
  "main_convert final =
     bind_res (collect final [] []) (\<lambda>(results_rows, marks_rows).
       (let df_results = DataFrame results_rows;
            df_marks = marks_frame marks_rows;
            raw_df = raw_frame final
        in if \<not> is_empty df_marks then
             bind_res (main_results df_results df_marks) (\<lambda>df_sorted.
               write_sheets df_sorted (reset_index ''grade_'' (pivot_table df_marks ''grade''))
                 df_marks raw_df)
           else write_sheets df_results (empty_frame [''hallticket'']) df_marks raw_df))"

text \<open>The whole final step of \<^verbatim>\<open>main\<close>: read the staging log, build the workbook.\<close>

definition main_final :: "(string \<Rightarrow> pyval option) \<Rightarrow> string \<Rightarrow> workbook result" where
  "main_final loads content = main_convert (main_read_log loads content)"

subsection \<open>\<^verbatim>\<open>items_to_excel\<close> (json\_to\_excel.py)\<close>

text \<open>\<^verbatim>\<open>str.isupper\<close> below U+0100: a cased character, and no lower-case one.\<close>

definition is_upper_char :: "char \<Rightarrow> bool" where
  "is_upper_char c =
     (let n = of_char c :: nat in (65 \<le> n \<and> n \<le> 90) \<or> (192 \<le> n \<and> n \<le> 222 \<and> n \<noteq> 215))"

definition is_lower_char :: "char \<Rightarrow> bool" where
  "is_lower_char c =
     (let n = of_char c :: nat in
      (97 \<le> n \<and> n \<le> 122) \<or> n = 170 \<or> n = 181 \<or> n = 186 \<or> (223 \<le> n \<and> n \<le> 255 \<and> n \<noteq> 247))"

definition py_isupper :: "string \<Rightarrow> bool" where
  "py_isupper s = (list_ex is_upper_char s \<and> \<not> list_ex is_lower_char s)"

text \<open>\<^verbatim>\<open>for c in final_cols: if c not in df_rows.columns: df_rows[c] = ""\<close>\<close>

fun add_missing :: "string list \<Rightarrow> frame \<Rightarrow> frame" where
  "add_missing [] df = df"
| "add_missing (c # cs) df =
     (if c \<in> set (columns df) then add_missing cs df
      else add_missing cs
             \<lparr>columns = columns df @ [c],
              rows = map (\<lambda>r x. if x = c then Val (PStr []) else r x) (rows df)\<rparr>)"

definition excel_cols :: "string list \<Rightarrow> string list \<Rightarrow> string list" where
  "excel_cols cols codes_sorted =
     (let core_cols = filter (\<lambda>c. c \<in> set cols) [''hallticket'', ''student.name'', ''student.father''];
          labs = filter (\<lambda>c. py_in ''LAB'' c) codes_sorted;
          non_labs = filter (\<lambda>c. c \<notin> set labs) codes_sorted;
          half = length non_labs div 2;
          common = take half non_labs;
          uncommon = drop half non_labs;
          subject_codes_ordered = filter (\<lambda>c. c \<in> set cols) (common @ labs @ uncommon);
          cols1 = core_cols @ subject_codes_ordered @ (if ''result'' \<in> set cols then [''result''] else []);
          remaining_code_cols =
            sort (filter (\<lambda>c. c \<notin> set cols1 \<and> py_isupper c \<and>
                               \<not> (startswith c ''credits_'' \<or> startswith c ''subject_'')) cols)
      in cols1 @ remaining_code_cols)"

text \<open>
  With marks, the three pivots are merged in: the grades under the bare codes, the credits
  and subjects under their prefixes.
\<close>

definition excel_merged :: "frame \<Rightarrow> frame \<Rightarrow> frame" where
  "excel_merged df_rows df_marks =
     (if \<not> is_empty df_marks then
        merge_left
          (merge_left (merge_left df_rows (reset_index [] (pivot_table df_marks ''grade'')))
             (reset_index ''credits_'' (pivot_table df_marks ''credits'')))
          (reset_index ''subject_'' (pivot_table df_marks ''subject''))
      else df_rows)"

definition excel_reordered :: "frame \<Rightarrow> frame \<Rightarrow> frame" where
  "excel_reordered df_rows df_marks =
     (let merged = excel_merged df_rows df_marks;
          codes_sorted = (if \<not> is_empty df_marks then codes_sorted_of df_marks else []);
          cols = excel_cols (columns merged) codes_sorted
      in fillna (PStr []) (reindex cols (add_missing cols merged)))"

text \<open>The frame of the results sheet: merge, reorder, fill, sort.\<close>

definition excel_results :: "frame \<Rightarrow> frame \<Rightarrow> frame result" where
  "excel_results df_rows df_marks = sort_by_hallticket (excel_reordered df_rows df_marks)"

definition items_to_excel :: "pyval list \<Rightarrow> workbook result" where
  "items_to_excel items =
     bind_res (collect items [] []) (\<lambda>(rows_list, marks).
       (let df_rows = DataFrame rows_list;
            df_marks = marks_frame marks
        in bind_res (excel_results df_rows df_marks) (\<lambda>df_sorted.
             write_sheets df_sorted
               (if \<not> is_empty df_marks then reset_index [] (pivot_table df_marks ''grade'')
                else empty_frame [''hallticket''])
               df_marks (raw_frame items))))"

subsection \<open>Result records\<close>

text \<open>
  The records the worker writes: a student with the hall ticket, alone or with the four
  other fields, all text; marks with code, subject, credits and grade, all text; a result
  that is text or None; and, for a placeholder, a status.
\<close>

definition is_str :: "pyval \<Rightarrow> bool" where
  "is_str v = (case v of PStr s \<Rightarrow> True | _ \<Rightarrow> False)"

definition is_student :: "pyval \<Rightarrow> bool" where
  "is_student s =
     (case s of
        PDict d \<Rightarrow>
          (map fst d = [''hallticket'', ''gender'', ''name'', ''father'', ''course''] \<or>
           map fst d = [''hallticket'']) \<and>
          list_all is_str (map snd d)
      | _ \<Rightarrow> False)"

definition is_mark :: "pyval \<Rightarrow> bool" where
  "is_mark m =
     (case m of
        PDict d \<Rightarrow>
          map fst d = [''code'', ''subject'', ''credits'', ''grade''] \<and> list_all is_str (map snd d)
      | _ \<Rightarrow> False)"

definition is_result_record :: "pyval \<Rightarrow> bool" where
  "is_result_record item =
     (case item of
        PDict d \<Rightarrow>
          (map fst d = [''student'', ''marks'', ''result''] \<or>
           map fst d = [''student'', ''marks'', ''result'', ''status'']) \<and>
          is_student (dict_get d ''student'') \<and>
          (case dict_get d ''marks'' of PList ms \<Rightarrow> list_all is_mark ms | _ \<Rightarrow> False) \<and>
          (dict_get d ''result'' = PNone \<or> is_str (dict_get d ''result'')) \<and>
          (dict_get d ''status'' = PNone \<or> is_str (dict_get d ''status''))
      | _ \<Rightarrow> False)"

text \<open>The marks of a record, and the hall ticket of its student.\<close>

definition record_marks :: "pyval \<Rightarrow> pyval list" where
  "record_marks item =
     (case item of PDict d \<Rightarrow> (case dict_get d ''marks'' of PList ms \<Rightarrow> ms | _ \<Rightarrow> []) | _ \<Rightarrow> [])"

definition record_hallticket :: "pyval \<Rightarrow> string" where
  "record_hallticket item =
     (case item of
        PDict d \<Rightarrow>
          (case dict_get d ''student'' of
             PDict sd \<Rightarrow> (case dict_get sd ''hallticket'' of PStr h \<Rightarrow> h | _ \<Rightarrow> [])
           | _ \<Rightarrow> [])
      | _ \<Rightarrow> [])"

definition mark_code :: "pyval \<Rightarrow> string" where
  "mark_code m = (case m of PDict d \<Rightarrow> (case dict_get d ''code'' of PStr c \<Rightarrow> c | _ \<Rightarrow> []) | _ \<Rightarrow> [])"

subsection \<open>Sample logs\<close>

definition mk_mark :: "string \<Rightarrow> string \<Rightarrow> string \<Rightarrow> string \<Rightarrow> pyval" where
  "mk_mark code subject credits grade =
     PDict [(''code'', PStr code), (''subject'', PStr subject), (''credits'', PStr credits),
            (''grade'', PStr grade)]"

definition mk_record :: "string \<Rightarrow> string \<Rightarrow> pyval list \<Rightarrow> pyval \<Rightarrow> pyval" where
  "mk_record ht name marks res =
     PDict [(''student'',
             PDict [(''hallticket'', PStr ht), (''gender'', PStr ''M''), (''name'', PStr name),
                    (''father'', PStr ''F''), (''course'', PStr ''BSC'')]),
            (''marks'', PList marks), (''result'', res)]"

text \<open>Two students with marks, out of order, and a placeholder between them.\<close>

definition sample_log :: "pyval list" where
  "sample_log =
     [mk_record ''110624861003'' ''C''
        [mk_mark ''MATH101'' ''Algebra'' ''4'' ''A'', mk_mark ''PHYS201'' ''Optics'' ''3'' ''B'']
        (PStr ''PASSED''),
      placeholder ''110624861002'',
      mk_record ''110624861001'' ''A''
        [mk_mark ''MATH101'' ''Algebra'' ''4'' ''C''] PNone]"

text \<open>Placeholders only, in the order the workers finished.\<close>

definition placeholder_log :: "pyval list" where
  "placeholder_log = [placeholder ''110624861002'', placeholder ''110624861001'']"

text \<open>
  A results page whose name cell holds U+0085 between two letters, the record the parser
  makes of it, and the staging log after the worker has appended that record to an empty
  file. (The byte 0x85 of a Windows-1252 page is U+0085 when the response is decoded as
  ISO-8859-1.)
\<close>

definition nel_page :: node where
  "nel_page =
     Tag ''[document]'' []
      [Tag ''table'' [(''id'', ''AutoNumber3'')]
         [tr [td ''Personal Details''],
          tr [td ''Hall Ticket No.'', td ''110624861001'', td ''Gender'', td ''M''],
          tr [td ''Name'', td [CHR ''A'', CHR 0x85, CHR ''B''], td ''Father Name'', td ''F''],
          tr [td ''Course'', td ''BSC'']]]"

definition nel_record :: pyval where
  "nel_record = mk_record ''110624861001'' [CHR ''A'', CHR 0x85, CHR ''B''] [] PNone"

definition log_after :: "env \<Rightarrow> string list \<Rightarrow> world \<Rightarrow> string" where
  "log_after env htnos w =
     ndjson_file (fold (\<lambda>htno w. case worker env htno w of Inr w' \<Rightarrow> w' | Inl e \<Rightarrow> w) htnos w)"

definition nel_log :: string where
  "nel_log =
     log_after (sample_env (Inr ''Personal Details'') nel_page False) [''110624861001'']
       (clear_old_results empty_world)"

text \<open>The same record after a placeholder, as two lines of a staging log.\<close>

definition two_line_log :: string where
  "two_line_log =
     json_dumps (placeholder ''110624861000'') @ [CHR 0x0A] @ json_dumps nel_record @ [CHR 0x0A]"

text \<open>
  Five students; the code MATH101 occurs five times, PHYS201 twice and ART101 once, and
  PHYS201 is the first code of the log.
\<close>

definition freq_log :: "pyval list" where
  "freq_log =
     [mk_record ''110624861005'' ''E''
        [mk_mark ''PHYS201'' ''Optics'' ''3'' ''B'', mk_mark ''MATH101'' ''Algebra'' ''4'' ''A'']
        (PStr ''PASSED''),
      mk_record ''110624861004'' ''D''
        [mk_mark ''ART101'' ''Drawing'' ''2'' ''A'', mk_mark ''MATH101'' ''Algebra'' ''4'' ''B'',
         mk_mark ''PHYS201'' ''Optics'' ''3'' ''C'']
        (PStr ''PASSED''),
      mk_record ''110624861003'' ''C'' [mk_mark ''MATH101'' ''Algebra'' ''4'' ''C''] (PStr ''PASSED''),
      mk_record ''110624861002'' ''B'' [mk_mark ''MATH101'' ''Algebra'' ''4'' ''D''] (PStr ''PASSED''),
      mk_record ''110624861001'' ''A'' [mk_mark ''MATH101'' ''Algebra'' ''4'' ''F''] (PStr ''FAILED'')]"

text \<open>One parsed record without marks.\<close>

definition zero_mark_log :: "pyval list" where
  "zero_mark_log = [mk_record ''110624861001'' ''A'' [] PNone]"

text \<open>Two parsed records without marks, the later hall ticket first.\<close>

definition unsorted_log :: "pyval list" where
  "unsorted_log =
     [mk_record ''110624861002'' ''B'' [] PNone, mk_record ''110624861001'' ''A'' [] PNone]"

subsection \<open>Notions used in the statements\<close>

text \<open>The row of the results table and the rows of the marks table that one record gives.\<close>

definition results_row :: "pyval \<Rightarrow> (string \<times> pyval) list" where
  "results_row item =
     (case (flatten_top item, hallticket_of item) of
        (Inr flat, Inr ht) \<Rightarrow> dict_set ''hallticket'' ht flat
      | _ \<Rightarrow> [])"

definition marks_rows_of :: "pyval \<Rightarrow> (string \<times> pyval) list list" where
  "marks_rows_of item =
     (case (hallticket_of item, marks_iter item) of
        (Inr ht, Inr ms) \<Rightarrow> (case sequence (map (mark_row ht) ms) of Inr rs \<Rightarrow> rs | Inl e \<Rightarrow> [])
      | _ \<Rightarrow> [])"

text \<open>A cell with text, None or nothing in it, and what the writer makes of it.\<close>

definition simple :: "cell \<Rightarrow> bool" where
  "simple c = (c = NaN \<or> c = Val PNone \<or> is_str_cell c)"

definition frame_ok :: "frame \<Rightarrow> bool" where
  "frame_ok df = (\<forall>r \<in> set (rows df). \<forall>c. simple (r c))"

definition xl_str :: "string \<Rightarrow> xl" where
  "xl_str s = (if s = [] then Empty else Str s)"

definition xl_simple :: "cell \<Rightarrow> xl" where
  "xl_simple c = (case c of Val (PStr s) \<Rightarrow> xl_str s | _ \<Rightarrow> Empty)"

definition sheet_of :: "frame \<Rightarrow> sheet" where
  "sheet_of df =
     \<lparr>header = columns df,
      sheet_rows = map (\<lambda>r. map (\<lambda>c. xl_simple (r c)) (columns df)) (rows df)\<rparr>"

text \<open>The three pivot columns of a subject code.\<close>

definition code_columns :: "string \<Rightarrow> string list" where
  "code_columns code = [''grade_'' @ code, ''credits_'' @ code, ''subject_'' @ code]"

text \<open>All subject codes of the mark rows of a log, one for each mark row.\<close>

definition all_codes :: "pyval list \<Rightarrow> string list" where
  "all_codes items = concat (map (\<lambda>item. map mark_code (record_marks item)) items)"

text \<open>A hall ticket as \<^verbatim>\<open>astype(int)\<close> reads it.\<close>

definition ticket_int :: "string \<Rightarrow> int option" where
  "ticket_int h = cell_int (Val (PStr h))"

text \<open>The column labels the flattened result records can have, and the values in them.\<close>

definition known_columns :: "string set" where
  "known_columns = {''student.hallticket'', ''student.gender'', ''student.name'', ''student.father'',
     ''student.course'', ''result'', ''status'', ''hallticket''}"

definition simple_val :: "pyval \<Rightarrow> bool" where
  "simple_val v = (v = PNone \<or> is_str v)"


text \<open>The cell of a sheet row under a column label.\<close>

definition sheet_cell :: "sheet \<Rightarrow> xl list \<Rightarrow> string \<Rightarrow> xl option" where
  "sheet_cell s row c = map_of (zip (header s) row) c"

text \<open>The hall tickets of the mark rows of a log, one for each mark row.\<close>

definition mark_tickets :: "pyval list \<Rightarrow> string list" where
  "mark_tickets items =
     concat (map (\<lambda>item. map (\<lambda>m. record_hallticket item) (record_marks item)) items)"

text \<open>The two frames the builders start from, for a log of records.\<close>

definition results_frame :: "pyval list \<Rightarrow> frame" where
  "results_frame items = DataFrame (map results_row items)"

definition marks_frame_of :: "pyval list \<Rightarrow> frame" where
  "marks_frame_of items = marks_frame (concat (map marks_rows_of items))"

text \<open>One merge with a pivot, row by row.\<close>

definition widen :: "string list \<Rightarrow> frame \<Rightarrow> (string \<Rightarrow> cell) \<Rightarrow> string \<Rightarrow> cell" where
  "widen cols R l c =
     (if c \<in> set cols then l c
      else (case filter (\<lambda>r. r ''hallticket'' = l ''hallticket'') (rows R) of
              [] \<Rightarrow> NaN | m # _ \<Rightarrow> m c))"

text \<open>The three merges of \<^verbatim>\<open>main\<close>: each row of the results, widened three times.\<close>

definition main_widen :: "frame \<Rightarrow> frame \<Rightarrow> (string \<Rightarrow> cell) \<Rightarrow> string \<Rightarrow> cell" where
  "main_widen dfr dfm l =
     (let G = reset_index ''grade_'' (pivot_table dfm ''grade'');
          C = reset_index ''credits_'' (pivot_table dfm ''credits'');
          S = reset_index ''subject_'' (pivot_table dfm ''subject'');
          c1 = columns dfr;
          c2 = columns (merge_left dfr G);
          c3 = columns (merge_left (merge_left dfr G) C)
      in widen c3 S (widen c2 C (widen c1 G l)))"

definition excel_widen :: "frame \<Rightarrow> frame \<Rightarrow> (string \<Rightarrow> cell) \<Rightarrow> string \<Rightarrow> cell" where
  "excel_widen dfr dfm l =
     (let G = reset_index [] (pivot_table dfm ''grade'');
          C = reset_index ''credits_'' (pivot_table dfm ''credits'');
          S = reset_index ''subject_'' (pivot_table dfm ''subject'');
          c1 = columns dfr;
          c2 = columns (merge_left dfr G);
          c3 = columns (merge_left (merge_left dfr G) C)
      in widen c3 S (widen c2 C (widen c1 G l)))"


text \<open>
  The hall-ticket column of a sheet, and the order the builders aim at: by the hall tickets
  as integers when every one of them converts, by the hall tickets as text otherwise.
\<close>

definition ticket_column :: "sheet \<Rightarrow> xl option list" where
  "ticket_column s = map (\<lambda>row. sheet_cell s row ''hallticket'') (sheet_rows s)"

definition sorted_tickets :: "string list \<Rightarrow> bool" where
  "sorted_tickets hts =
     (if \<forall>h \<in> set hts. ticket_int h \<noteq> None
      then sorted (map (\<lambda>h. the (ticket_int h)) hts)
      else sorted hts)"

section \<open>Properties of the parser\<close>

lemma bind_res_Inr_iff: "bind_res m f = Inr y \<longleftrightarrow> (\<exists>x. m = Inr x \<and> f x = Inr y)"
  by (cases m) (auto simp: bind_res_def)

lemma bind_res_Inl_iff: "bind_res m f = Inl e \<longleftrightarrow> (m = Inl e \<or> (\<exists>x. m = Inr x \<and> f x = Inl e))"
  by (cases m) (auto simp: bind_res_def)

lemma marks_loop_spec:
  "marks_loop trs acc = Inr (acc @ concat (map row_marks trs))"
  by (induction trs arbitrary: acc) (auto simp: Let_def bind_res_def py_index_def row_marks_def mark_entry_def)

lemma marks_of_spec:
  "marks_of soup = Inr (case find_id ''AutoNumber4'' soup of None \<Rightarrow> []
       | Some table4 \<Rightarrow> concat (map row_marks (drop 2 (find_all ''tr'' table4))))"
  by (simp add: marks_of_def marks_loop_spec split: option.splits)

lemma final_result_total: "\<exists>r. final_result_of soup = Inr r"
  by (auto simp: final_result_of_def Let_def bind_res_def py_index_def split: option.splits)



lemma parse_page_Some:
  "parse_page hp body = Inr (Some r) \<longleftrightarrow>
     py_in ''Personal Details'' body \<and>
     (\<exists>table3 st fr. find_id ''AutoNumber3'' (hp body) = Some table3 \<and>
        student_of (find_all ''tr'' table3) = Inr st \<and>
        final_result_of (hp body) = Inr fr \<and>
        r = PDict [(''student'', st),
              (''marks'', PList (case find_id ''AutoNumber4'' (hp body) of None \<Rightarrow> []
                 | Some table4 \<Rightarrow> concat (map row_marks (drop 2 (find_all ''tr'' table4))))),
              (''result'', fr)])"
  using final_result_total [of "hp body"]
  by (auto simp: parse_page_def Let_def marks_of_spec bind_res_def split: option.splits sum.splits)







text \<open>
  Claim C7. The marks of a parsed page are built from the trs of the tag with id
  \<^verbatim>\<open>AutoNumber4\<close>, the third row onward, in row order: a row with at least four cells gives
  one entry whose code, subject, credits and grade are the stripped texts of its first four
  cells, a row with fewer cells gives nothing, and building the marks raises nothing. Without
  that tag the marks are empty.
\<close>

theorem marks_from_third_row:
  "(parse_page hp body = Inr (Some r) \<longrightarrow>
      (\<exists>student final_result.
         r = PDict [(''student'', student),
                    (''marks'',
                     PList (case find_id ''AutoNumber4'' (hp body) of
                              None \<Rightarrow> []
                            | Some table4 \<Rightarrow>
                                concat (map row_marks (drop 2 (find_all ''tr'' table4))))),
                    (''result'', final_result)])) \<and>
   marks_of soup =
     Inr (case find_id ''AutoNumber4'' soup of
            None \<Rightarrow> []
          | Some table4 \<Rightarrow> concat (map row_marks (drop 2 (find_all ''tr'' table4)))) \<and>
   (4 \<le> length (find_all ''td'' row) \<longrightarrow>
      row_marks row =
        [PDict [(''code'', PStr (get_text (find_all ''td'' row ! 0))),
                (''subject'', PStr (get_text (find_all ''td'' row ! 1))),
                (''credits'', PStr (get_text (find_all ''td'' row ! 2))),
                (''grade'', PStr (get_text (find_all ''td'' row ! 3)))]]) \<and>
   (length (find_all ''td'' row) < 4 \<longrightarrow> row_marks row = [])"
  by (auto simp: parse_page_Some marks_of_spec row_marks_def mark_entry_def)

theorem marks_from_third_row_witness:
  "parse_page (\<lambda>_. sample_page) ''<b>Personal Details</b>'' = Inr (Some sample_record) \<and>
   find_id ''AutoNumber4'' sample_page = Some sample_table4 \<and>
   map (\<lambda>row. length (find_all ''td'' row)) (find_all ''tr'' sample_table4) = [1, 4, 4, 2] \<and>
   row_marks (tr [td ''PHYS201'', td ''Optics'']) = [] \<and>
   row_marks (tr [td ''MATH101'', td '' Algebra'', td ''4'', td ''A'']) =
     [PDict [(''code'', PStr ''MATH101''), (''subject'', PStr ''Algebra''),
             (''credits'', PStr ''4''), (''grade'', PStr ''A'')]] \<and>
   (\<exists>student final_result.
      sample_record =
        PDict [(''student'', student),
               (''marks'', PList (concat (map row_marks (drop 2 (find_all ''tr'' sample_table4))))),
               (''result'', final_result)])"
proof -
  have a: "parse_page (\<lambda>_. sample_page) ''<b>Personal Details</b>'' = Inr (Some sample_record)"
    by code_simp
  have b: "find_id ''AutoNumber4'' ((\<lambda>_. sample_page) ''<b>Personal Details</b>'') = Some sample_table4"
    by code_simp
  have c: "map (\<lambda>row. length (find_all ''td'' row)) (find_all ''tr'' sample_table4) = [1, 4, 4, 2]"
    by code_simp
  have d: "length (find_all ''td'' (tr [td ''PHYS201'', td ''Optics''])) < 4"
    by code_simp
  have e: "4 \<le> length (find_all ''td'' (tr [td ''MATH101'', td '' Algebra'', td ''4'', td ''A'']))"
    by code_simp
  have f: "get_text (find_all ''td'' (tr [td ''MATH101'', td '' Algebra'', td ''4'', td ''A'']) ! 0) = ''MATH101''"
    "get_text (find_all ''td'' (tr [td ''MATH101'', td '' Algebra'', td ''4'', td ''A'']) ! 1) = ''Algebra''"
    "get_text (find_all ''td'' (tr [td ''MATH101'', td '' Algebra'', td ''4'', td ''A'']) ! 2) = ''4''"
    "get_text (find_all ''td'' (tr [td ''MATH101'', td '' Algebra'', td ''4'', td ''A'']) ! 3) = ''A''"
    by code_simp+
  have "row_marks (tr [td ''PHYS201'', td ''Optics'']) = []"
    using marks_from_third_row [where row = "tr [td ''PHYS201'', td ''Optics'']"] d
    by blast
  moreover have "row_marks (tr [td ''MATH101'', td '' Algebra'', td ''4'', td ''A'']) =
     [PDict [(''code'', PStr ''MATH101''), (''subject'', PStr ''Algebra''),
             (''credits'', PStr ''4''), (''grade'', PStr ''A'')]]"
    using marks_from_third_row [where row = "tr [td ''MATH101'', td '' Algebra'', td ''4'', td ''A'']"] e f
    by simp
  moreover have "\<exists>student final_result.
      sample_record =
        PDict [(''student'', student),
               (''marks'', PList (concat (map row_marks (drop 2 (find_all ''tr'' sample_table4))))),
               (''result'', final_result)]"
    using marks_from_third_row [where hp = "\<lambda>_. sample_page" and body = "''<b>Personal Details</b>''"
        and r = sample_record] a b
    by simp
  ultimately show ?thesis using a b c by simp
qed

section \<open>Properties of the worker\<close>















section \<open>The rows and frames of a log of result records\<close>

lemma bind_res_Inr_simp [simp]: "bind_res (Inr x) f = f x"
  by (simp add: bind_res_def)

lemma bind_res_Inl_simp [simp]: "bind_res (Inl e) f = Inl e"
  by (simp add: bind_res_def)

lemma sequence_Inr_map:
  "(\<And>x. x \<in> set xs \<Longrightarrow> f x = Inr (g x)) \<Longrightarrow> sequence (map f xs) = Inr (map g xs)"
  by (induction xs) auto

lemma sequence_Inr_length:
  "sequence ms = Inr xs \<Longrightarrow> length xs = length ms \<and> (\<forall>i < length ms. ms ! i = Inr (xs ! i))"
proof (induction ms arbitrary: xs)
  case Nil
  then show ?case by simp
next
  case (Cons m ms)
  then obtain y ys where m: "m = Inr y" and ys: "sequence ms = Inr ys" and xs: "xs = y # ys"
    by (auto simp: bind_res_Inr_iff)
  from Cons.IH [OF ys] m xs show ?case
    by (auto simp: nth_Cons split: nat.splits)
qed

lemma collect_spec:
  "collect items rr mr = Inr (rr', mr') \<Longrightarrow>
     rr' = rr @ map results_row items \<and> mr' = mr @ concat (map marks_rows_of items)"
proof (induction items arbitrary: rr mr)
  case Nil
  then show ?case by simp
next
  case (Cons item rest)
  from Cons.prems obtain flat ht ms mrs where
    f: "flatten_top item = Inr flat" and h: "hallticket_of item = Inr ht" and
    m: "marks_iter item = Inr ms" and s: "sequence (map (mark_row ht) ms) = Inr mrs" and
    c: "collect rest (rr @ [dict_set ''hallticket'' ht flat]) (mr @ mrs) = Inr (rr', mr')"
    by (auto simp: bind_res_Inr_iff)
  have r: "results_row item = dict_set ''hallticket'' ht flat" "marks_rows_of item = mrs"
    using f h m s by (simp_all add: results_row_def marks_rows_of_def)
  from Cons.IH [OF c] show ?case
    by (simp add: r)
qed

lemma collect_ok:
  "(\<And>item. item \<in> set items \<Longrightarrow>
      (\<exists>flat ht ms mrs. flatten_top item = Inr flat \<and> hallticket_of item = Inr ht \<and>
         marks_iter item = Inr ms \<and> sequence (map (mark_row ht) ms) = Inr mrs)) \<Longrightarrow>
   collect items rr mr = Inr (rr @ map results_row items, mr @ concat (map marks_rows_of items))"
proof (induction items arbitrary: rr mr)
  case Nil
  then show ?case by simp
next
  case (Cons item rest)
  from Cons.prems [of item] obtain flat ht ms mrs where
    f: "flatten_top item = Inr flat" and h: "hallticket_of item = Inr ht" and
    m: "marks_iter item = Inr ms" and s: "sequence (map (mark_row ht) ms) = Inr mrs"
    by auto
  have "collect rest (rr @ [dict_set ''hallticket'' ht flat]) (mr @ mrs) =
      Inr ((rr @ [dict_set ''hallticket'' ht flat]) @ map results_row rest,
           (mr @ mrs) @ concat (map marks_rows_of rest))"
    by (rule Cons.IH) (use Cons.prems in auto)
  moreover have "results_row item = dict_set ''hallticket'' ht flat" "marks_rows_of item = mrs"
    using f h m s by (simp_all add: results_row_def marks_rows_of_def)
  ultimately show ?case using f h m s
    by simp
qed

lemma is_str_iff: "is_str v \<longleftrightarrow> (\<exists>s. v = PStr s)"
  by (cases v) (auto simp: is_str_def)

lemma is_student_cases:
  assumes "is_student s"
  obtains h where "s = PDict [(''hallticket'', PStr h)]"
  | h g n f c where "s = PDict [(''hallticket'', PStr h), (''gender'', PStr g), (''name'', PStr n),
       (''father'', PStr f), (''course'', PStr c)]"
proof -
  from assms obtain d where d: "s = PDict d"
    and k: "map fst d = [''hallticket'', ''gender'', ''name'', ''father'', ''course''] \<or>
            map fst d = [''hallticket'']"
    and v: "list_all is_str (map snd d)"
    by (cases s) (auto simp: is_student_def)
  from k show thesis
  proof
    assume "map fst d = [''hallticket'']"
    then obtain x where "d = [(''hallticket'', x)]"
      by (auto simp: map_eq_Cons_conv)
    with v d that(1) show thesis by (auto simp: is_str_iff)
  next
    assume "map fst d = [''hallticket'', ''gender'', ''name'', ''father'', ''course'']"
    then obtain x1 x2 x3 x4 x5 where "d = [(''hallticket'', x1), (''gender'', x2), (''name'', x3),
       (''father'', x4), (''course'', x5)]"
      by (auto simp: map_eq_Cons_conv)
    with v d that(2) show thesis by (auto simp: is_str_iff)
  qed
qed

lemma is_mark_cases:
  assumes "is_mark m"
  obtains c s cr g where "m = mk_mark c s cr g"
proof -
  from assms obtain d where d: "m = PDict d"
    and k: "map fst d = [''code'', ''subject'', ''credits'', ''grade'']"
    and v: "list_all is_str (map snd d)"
    by (cases m) (auto simp: is_mark_def)
  from k obtain x1 x2 x3 x4 where "d = [(''code'', x1), (''subject'', x2), (''credits'', x3),
       (''grade'', x4)]"
    by (auto simp: map_eq_Cons_conv)
  with v d that show thesis by (auto simp: is_str_iff mk_mark_def)
qed

lemma is_result_record_cases:
  assumes "is_result_record item"
  obtains s ms r where "item = PDict [(''student'', s), (''marks'', PList ms), (''result'', r)]"
      "is_student s" "list_all is_mark ms" "simple_val r"
  | s ms r st where "item = PDict [(''student'', s), (''marks'', PList ms), (''result'', r), (''status'', st)]"
      "is_student s" "list_all is_mark ms" "simple_val r" "simple_val st"
proof -
  from assms obtain d where d: "item = PDict d"
    and k: "map fst d = [''student'', ''marks'', ''result''] \<or>
            map fst d = [''student'', ''marks'', ''result'', ''status'']"
    and s: "is_student (dict_get d ''student'')"
    and m: "case dict_get d ''marks'' of PList ms \<Rightarrow> list_all is_mark ms | _ \<Rightarrow> False"
    and r: "dict_get d ''result'' = PNone \<or> is_str (dict_get d ''result'')"
    and t: "dict_get d ''status'' = PNone \<or> is_str (dict_get d ''status'')"
    by (cases item) (auto simp: is_result_record_def)
  from k show thesis
  proof
    assume "map fst d = [''student'', ''marks'', ''result'']"
    then obtain x1 x2 x3 where e: "d = [(''student'', x1), (''marks'', x2), (''result'', x3)]"
      by (auto simp: map_eq_Cons_conv)
    with m obtain ms where "x2 = PList ms" "list_all is_mark ms"
      by (cases x2) (auto simp: dict_get_def)
    with e d s r that(1) show thesis
      by (auto simp: dict_get_def simple_val_def)
  next
    assume "map fst d = [''student'', ''marks'', ''result'', ''status'']"
    then obtain x1 x2 x3 x4 where e: "d = [(''student'', x1), (''marks'', x2), (''result'', x3), (''status'', x4)]"
      by (auto simp: map_eq_Cons_conv)
    with m obtain ms where "x2 = PList ms" "list_all is_mark ms"
      by (cases x2) (auto simp: dict_get_def)
    with e d s r t that(2) show thesis
      by (auto simp: dict_get_def simple_val_def)
  qed
qed

lemma mark_row_wf:
  "mark_row ht (mk_mark c s cr g) =
     Inr [(''hallticket'', ht), (''code'', PStr c), (''subject'', PStr s), (''credits'', PStr cr),
          (''grade'', PStr g)]"
  by (simp add: mark_row_def mk_mark_def)

lemma wf_item_facts:
  assumes "is_result_record item"
  shows "\<exists>flat. flatten_top item = Inr flat"
    and "hallticket_of item = Inr (PStr (record_hallticket item))"
    and "marks_iter item = Inr (record_marks item)"
    and "list_all is_mark (record_marks item)"
    and "fst ` set (results_row item) \<subseteq> known_columns"
    and "\<forall>kv \<in> set (results_row item). simple_val (snd kv)"
    and "map_of (results_row item) ''hallticket'' = Some (PStr (record_hallticket item))"
    and "{''hallticket'', ''student.hallticket'', ''result''} \<subseteq> fst ` set (results_row item)"
  using assms
  by (elim is_result_record_cases is_student_cases;
      auto simp: flatten_top_def hallticket_of_def marks_iter_def record_marks_def
        record_hallticket_def results_row_def dict_get_def known_columns_def simple_val_def
        is_str_iff; fail)+

lemma wf_marks_rows_of:
  assumes "is_result_record item"
  shows "marks_rows_of item =
     map (\<lambda>m. (''hallticket'', PStr (record_hallticket item)) # (case m of PDict d \<Rightarrow> d | _ \<Rightarrow> []))
       (record_marks item)"
    and "sequence (map (mark_row (PStr (record_hallticket item))) (record_marks item)) =
       Inr (map (\<lambda>m. (''hallticket'', PStr (record_hallticket item)) # (case m of PDict d \<Rightarrow> d | _ \<Rightarrow> []))
       (record_marks item))"
proof -
  have m: "mark_row ht m = Inr ((''hallticket'', ht) # (case m of PDict d \<Rightarrow> d | _ \<Rightarrow> []))"
    if "is_mark m" for m ht
    using that by (elim is_mark_cases) (simp add: mark_row_wf, simp add: mk_mark_def)
  have "list_all is_mark (record_marks item)"
    using assms by (rule wf_item_facts)
  then show s: "sequence (map (mark_row (PStr (record_hallticket item))) (record_marks item)) =
       Inr (map (\<lambda>m. (''hallticket'', PStr (record_hallticket item)) # (case m of PDict d \<Rightarrow> d | _ \<Rightarrow> []))
       (record_marks item))"
    by (intro sequence_Inr_map m) (simp add: list_all_iff)
  show "marks_rows_of item =
     map (\<lambda>m. (''hallticket'', PStr (record_hallticket item)) # (case m of PDict d \<Rightarrow> d | _ \<Rightarrow> []))
       (record_marks item)"
    using wf_item_facts(2,3) [OF assms] s by (simp add: marks_rows_of_def)
qed

lemma collect_wf:
  assumes "list_all is_result_record items"
  shows "collect items [] [] = Inr (map results_row items, concat (map marks_rows_of items))"
proof -
  have "collect items [] [] = Inr ([] @ map results_row items, [] @ concat (map marks_rows_of items))"
  proof (rule collect_ok)
    fix item assume "item \<in> set items"
    with assms have w: "is_result_record item" by (simp add: list_all_iff)
    from wf_item_facts(1-3) [OF w] wf_marks_rows_of(2) [OF w]
    show "\<exists>flat ht ms mrs. flatten_top item = Inr flat \<and> hallticket_of item = Inr ht \<and>
         marks_iter item = Inr ms \<and> sequence (map (mark_row ht) ms) = Inr mrs"
      by blast
  qed
  then show ?thesis by simp
qed

lemma first_seen_set: "set (first_seen seen xs) = set seen \<union> set xs"
  by (induction xs arbitrary: seen) auto

lemma first_seen_distinct: "distinct seen \<Longrightarrow> distinct (first_seen seen xs)"
  by (induction xs arbitrary: seen) auto

lemma unique_set [simp]: "set (unique xs) = set xs"
  by (simp add: unique_def first_seen_set)

lemma unique_distinct [simp]: "distinct (unique xs)"
  by (simp add: unique_def first_seen_distinct)

lemma unique_Nil_iff [simp]: "unique xs = [] \<longleftrightarrow> xs = []"
  using unique_set [of xs] by (metis set_empty)

lemma simple_simps [simp]: "simple NaN" "simple (Val PNone)" "simple (Val (PStr s))"
  by (simp_all add: simple_def is_str_cell_def)

lemma xl_of_simple: "simple c \<Longrightarrow> xl_of c = Inr (xl_simple c)"
  by (cases c rule: cell.exhaust; cases "case c of Val v \<Rightarrow> v | NaN \<Rightarrow> PNone")
     (auto simp: simple_def is_str_cell_def xl_of_def xl_simple_def xl_str_def split: pyval.splits)

lemma to_excel_ok: "frame_ok df \<Longrightarrow> to_excel df = Inr (sheet_of df)"
proof -
  assume ok: "frame_ok df"
  have "sequence (map (\<lambda>c. xl_of (r c)) cs) = Inr (map (\<lambda>c. xl_simple (r c)) cs)"
    if "r \<in> set (rows df)" for r cs
    by (rule sequence_Inr_map, rule xl_of_simple) (use that ok in \<open>simp add: frame_ok_def\<close>)
  then have "sequence (map (\<lambda>r. sequence (map (\<lambda>c. xl_of (r c)) (columns df))) (rows df)) =
      Inr (map (\<lambda>r. map (\<lambda>c. xl_simple (r c)) (columns df)) (rows df))"
    by (rule sequence_Inr_map)
  then show ?thesis by (simp add: to_excel_def sheet_of_def)
qed

lemma frame_ok_DataFrame:
  "(\<And>d kv. d \<in> set ds \<Longrightarrow> kv \<in> set d \<Longrightarrow> simple_val (snd kv)) \<Longrightarrow> frame_ok (DataFrame ds)"
proof -
  assume a: "\<And>d kv. d \<in> set ds \<Longrightarrow> kv \<in> set d \<Longrightarrow> simple_val (snd kv)"
  have "simple (case map_of d c of None \<Rightarrow> NaN | Some v \<Rightarrow> Val v)" if "d \<in> set ds" for d c
  proof (cases "map_of d c")
    case None
    then show ?thesis by simp
  next
    case (Some v)
    then have "(c, v) \<in> set d" by (rule map_of_SomeD)
    with a [OF that] have "simple_val v" by fastforce
    with Some show ?thesis by (auto simp: simple_val_def is_str_iff)
  qed
  then show ?thesis by (auto simp: frame_ok_def DataFrame_def)
qed

lemma frame_ok_reindex: "frame_ok df \<Longrightarrow> frame_ok (reindex cs df)"
  by (auto simp: frame_ok_def reindex_def)

lemma frame_ok_fillna: "frame_ok df \<Longrightarrow> frame_ok (fillna (PStr s) df)"
  by (auto simp: frame_ok_def fillna_def)

lemma frame_ok_empty: "frame_ok (empty_frame cs)"
  by (simp add: frame_ok_def empty_frame_def)

lemma frame_ok_raw: "frame_ok (raw_frame items)"
  by (auto simp: frame_ok_def raw_frame_def)

lemma first_value_simple: "frame_ok df \<Longrightarrow> simple (first_value df v h c)"
  by (auto simp: first_value_def frame_ok_def split: list.splits dest!: filter_eq_ConsD)

lemma frame_ok_reset_index: "frame_ok df \<Longrightarrow> frame_ok (reset_index pre (pivot_table df v))"
proof -
  assume ok: "frame_ok df"
  show ?thesis
    by (auto simp: frame_ok_def reset_index_def pivot_table_def first_value_simple [OF ok]
        split: list.splits)
qed

lemma frame_ok_merge_left: "frame_ok l \<Longrightarrow> frame_ok r \<Longrightarrow> frame_ok (merge_left l r)"
  unfolding frame_ok_def merge_left_def
  by (auto split: list.splits dest!: filter_eq_ConsD)

lemma frame_ok_marks_frame:
  "(\<And>d kv. d \<in> set ds \<Longrightarrow> kv \<in> set d \<Longrightarrow> simple_val (snd kv)) \<Longrightarrow> frame_ok (marks_frame ds)"
  by (simp add: marks_frame_def Let_def frame_ok_empty frame_ok_fillna frame_ok_reindex frame_ok_DataFrame)

lemma dict_set_nonempty [simp]: "dict_set k v d \<noteq> []"
  by (cases d) (auto split: if_splits)

lemma fold_dict_set_nonempty: "r \<noteq> [] \<Longrightarrow> fold (\<lambda>(mk, mv) r. dict_set mk mv r) md r \<noteq> []"
  by (induction md arbitrary: r) (auto split: prod.splits)

lemma mark_row_nonempty: "mark_row ht m = Inr row \<Longrightarrow> row \<noteq> []"
  by (auto simp: mark_row_def fold_dict_set_nonempty split: if_splits pyval.splits)

lemma marks_rows_of_nonempty: "row \<in> set (marks_rows_of item) \<Longrightarrow> row \<noteq> []"
proof -
  assume a: "row \<in> set (marks_rows_of item)"
  then have "\<exists>ht ms rs. sequence (map (mark_row ht) ms) = Inr rs \<and> row \<in> set rs"
    by (cases "hallticket_of item"; cases "marks_iter item";
        cases "sequence (map (mark_row (projr (hallticket_of item))) (projr (marks_iter item)))")
       (auto simp: marks_rows_of_def)
  then obtain ht ms rs where s: "sequence (map (mark_row ht) ms) = Inr rs" and r: "row \<in> set rs"
    by blast
  from r obtain i where i: "i < length rs" "rs ! i = row"
    by (auto simp: in_set_conv_nth)
  with sequence_Inr_length [OF s] have "mark_row ht (ms ! i) = Inr row"
    by auto
  then show ?thesis by (rule mark_row_nonempty)
qed

lemma is_empty_DataFrame: "(\<And>d. d \<in> set ds \<Longrightarrow> d \<noteq> []) \<Longrightarrow> is_empty (DataFrame ds) \<longleftrightarrow> ds = []"
  by (cases ds; cases "hd ds") (auto simp: is_empty_def DataFrame_def)

lemma is_empty_marks_frame:
  "(\<And>d. d \<in> set ds \<Longrightarrow> d \<noteq> []) \<Longrightarrow> is_empty (marks_frame ds) \<longleftrightarrow> ds = []"
proof -
  assume a: "\<And>d. d \<in> set ds \<Longrightarrow> d \<noteq> []"
  show ?thesis
  proof (cases "ds = []")
    case True
    then show ?thesis
      by (simp add: marks_frame_def Let_def is_empty_def DataFrame_def empty_frame_def unique_def)
  next
    case False
    with is_empty_DataFrame [OF a] have "\<not> is_empty (DataFrame ds)" by simp
    with False show ?thesis
      by (simp add: marks_frame_def Let_def)
         (simp add: is_empty_def fillna_def reindex_def expected_mark_cols_def DataFrame_def)
  qed
qed

lemma to_excel_empty: "to_excel (empty_frame cs) = Inr \<lparr>header = cs, sheet_rows = []\<rparr>"
  by (simp add: to_excel_def empty_frame_def)

lemma to_excel_cells:
  assumes "to_excel df = Inr s"
  shows "header s = columns df \<and> length (sheet_rows s) = length (rows df) \<and>
    (\<forall>i < length (rows df). length (sheet_rows s ! i) = length (columns df) \<and>
       (\<forall>j < length (columns df). xl_of ((rows df ! i) (columns df ! j)) = Inr (sheet_rows s ! i ! j)))"
proof -
  from assms obtain cells where
    c: "sequence (map (\<lambda>r. sequence (map (\<lambda>c. xl_of (r c)) (columns df))) (rows df)) = Inr cells"
    and s: "s = \<lparr>header = columns df, sheet_rows = cells\<rparr>"
    by (auto simp: to_excel_def bind_res_Inr_iff)
  from sequence_Inr_length [OF c]
  have l: "length cells = length (rows df)"
    and n: "\<And>i. i < length (rows df) \<Longrightarrow>
        sequence (map (\<lambda>c. xl_of ((rows df ! i) c)) (columns df)) = Inr (cells ! i)"
    by auto
  have "length (cells ! i) = length (columns df) \<and>
       (\<forall>j < length (columns df). xl_of ((rows df ! i) (columns df ! j)) = Inr (cells ! i ! j))"
    if "i < length (rows df)" for i
    using sequence_Inr_length [OF n [OF that]] by auto
  with l s show ?thesis by simp
qed


lemma filter_key_distinct:
  "distinct (map f xs) \<Longrightarrow> filter (\<lambda>x. f x = k) xs = [] \<or> (\<exists>m. filter (\<lambda>x. f x = k) xs = [m])"
proof (induction xs)
  case Nil
  then show ?case by simp
next
  case (Cons x xs)
  show ?case
  proof (cases "f x = k")
    case True
    with Cons.prems have "k \<notin> f ` set xs" by auto
    then have "filter (\<lambda>x. f x = k) xs = []"
      by (auto simp: filter_empty_conv)
    with True show ?thesis by simp
  next
    case False
    with Cons show ?thesis by simp
  qed
qed

lemma merge_left_columns [simp]:
  "columns (merge_left l r) = columns l @ filter (\<lambda>c. c \<noteq> ''hallticket'') (columns r)"
  by (simp add: merge_left_def)

lemma merge_left_rows:
  assumes "distinct (map (\<lambda>r. r ''hallticket'') (rows R))"
  shows "rows (merge_left L R) =
     map (\<lambda>l c. if c \<in> set (columns L) then l c
                else (case filter (\<lambda>r. r ''hallticket'' = l ''hallticket'') (rows R) of
                        [] \<Rightarrow> NaN | m # _ \<Rightarrow> m c))
       (rows L)"
proof -
  have "(case filter (\<lambda>r. r ''hallticket'' = l ''hallticket'') (rows R) of
           [] \<Rightarrow> [\<lambda>c. if c \<in> set (columns L) then l c else NaN]
         | ms \<Rightarrow> map (\<lambda>r c. if c \<in> set (columns L) then l c else r c) ms) =
        [\<lambda>c. if c \<in> set (columns L) then l c
              else (case filter (\<lambda>r. r ''hallticket'' = l ''hallticket'') (rows R) of
                      [] \<Rightarrow> NaN | m # _ \<Rightarrow> m c)]" for l
    using filter_key_distinct [OF assms, of "l ''hallticket''"] by (auto cong: if_cong)
  then show ?thesis
    by (simp add: merge_left_def)
qed

lemma reset_index_columns [simp]:
  "columns (reset_index pre p) = ''hallticket'' # map (\<lambda>c. pre @ c) (pcolumns p)"
  by (simp add: reset_index_def)

lemma reset_index_keys:
  "map (\<lambda>r. r ''hallticket'') (rows (reset_index pre p)) = map (\<lambda>h. Val (PStr h)) (pindex p)"
  by (simp add: reset_index_def)

lemma pivot_table_simps [simp]:
  "pcolumns (pivot_table df v) = sort (remdups (map key_str (column df ''code'')))"
  "pindex (pivot_table df v) = sort (remdups (map key_str (column df ''hallticket'')))"
  by (simp_all add: pivot_table_def)

lemma reset_index_keys_distinct:
  "distinct (map (\<lambda>r. r ''hallticket'') (rows (reset_index pre (pivot_table df v))))"
  by (simp add: reset_index_keys distinct_map inj_on_def)

lemma reindex_simps [simp]:
  "columns (reindex cs df) = cs"
  "rows (reindex cs df) = map (\<lambda>r c. if c \<in> set (columns df) then r c else NaN) (rows df)"
  by (simp_all add: reindex_def)

lemma fillna_simps [simp]:
  "columns (fillna v df) = columns df"
  "rows (fillna v df) =
     map (\<lambda>r c. if c \<in> set (columns df) \<and> isna (r c) then Val v else r c) (rows df)"
  by (simp_all add: fillna_def)

lemma DataFrame_simps [simp]:
  "columns (DataFrame ds) = unique (concat (map (map fst) ds))"
  "rows (DataFrame ds) = map (\<lambda>d c. case map_of d c of None \<Rightarrow> NaN | Some v \<Rightarrow> Val v) ds"
  by (simp_all add: DataFrame_def)

lemma sheet_of_simps [simp]:
  "header (sheet_of df) = columns df"
  "sheet_rows (sheet_of df) = map (\<lambda>r. map (\<lambda>c. xl_simple (r c)) (columns df)) (rows df)"
  by (simp_all add: sheet_of_def)

text \<open>Three merges with pivots: the rows are those of the left frame, each widened.\<close>

lemma merge_left_hallticket:
  assumes "distinct (map (\<lambda>r. r ''hallticket'') (rows R))" "''hallticket'' \<in> set (columns L)"
  shows "map (\<lambda>r. r ''hallticket'') (rows (merge_left L R)) = map (\<lambda>r. r ''hallticket'') (rows L)"
  using assms(2) by (simp add: merge_left_rows [OF assms(1)] comp_def)

lemma merge_left_length:
  assumes "distinct (map (\<lambda>r. r ''hallticket'') (rows R))"
  shows "length (rows (merge_left L R)) = length (rows L)"
  by (simp add: merge_left_rows [OF assms])

lemma astype_int_Some: "astype_int cs = Some ks \<longleftrightarrow> map cell_int cs = map Some ks"
proof (induction cs arbitrary: ks)
  case Nil
  then show ?case by auto
next
  case (Cons c cs)
  show ?case
  proof (cases ks)
    case Nil
    then show ?thesis by (auto split: option.splits)
  next
    case (Cons k ks')
    with Cons.IH [of ks'] show ?thesis
      by (cases "cell_int c"; cases "astype_int cs") auto
  qed
qed

lemma astype_int_None: "astype_int cs = None \<longleftrightarrow> (\<exists>c \<in> set cs. cell_int c = None)"
  by (induction cs) (auto split: option.splits)

lemma sort_pairs_keys:
  assumes "map g rs = map Some ks"
  shows "map g (map snd (sort_key fst (zip ks rs))) = map Some (map fst (sort_key fst (zip ks rs)))"
proof -
  from assms have l: "length rs = length ks"
    by (metis length_map)
  have p: "g r = Some k" if "(k, r) \<in> set (zip ks rs)" for k r
  proof -
    from that obtain i where "i < length ks" "ks ! i = k" "rs ! i = r"
      by (auto simp: set_zip)
    with assms l show ?thesis
      by (metis nth_map)
  qed
  have "set (sort_key fst (zip ks rs)) = set (zip ks rs)" by simp
  with p show ?thesis by auto
qed

lemma sort_pairs_mset:
  "length ks = length rs \<Longrightarrow> mset (map snd (sort_key fst (zip ks rs))) = mset rs"
proof -
  assume "length ks = length rs"
  then have "map snd (zip ks rs) = rs" by simp
  moreover have "mset (map snd (sort_key fst (zip ks rs))) = mset (map snd (zip ks rs))"
    by (simp only: mset_map mset_sort)
  ultimately show ?thesis by simp
qed

lemma is_str_cell_iff: "is_str_cell c \<longleftrightarrow> (\<exists>s. c = Val (PStr s))"
  by (cases c; cases "case c of Val v \<Rightarrow> v | NaN \<Rightarrow> PNone")
     (auto simp: is_str_cell_def split: pyval.splits)

lemma is_str_cell_not_na: "is_str_cell c \<Longrightarrow> \<not> isna c"
  by (auto simp: is_str_cell_iff isna_def)

lemma sort_by_hallticket_spec:
  assumes "''hallticket'' \<in> set (columns df)"
    and "\<forall>r \<in> set (rows df). is_str_cell (r ''hallticket'')"
  shows "\<exists>df'. sort_by_hallticket df = Inr df' \<and> columns df' = columns df \<and>
      mset (rows df') = mset (rows df) \<and>
      (if \<forall>r \<in> set (rows df). cell_int (r ''hallticket'') \<noteq> None
       then sorted (map (\<lambda>r. the (cell_int (r ''hallticket''))) (rows df'))
       else sorted (map (\<lambda>r. key_str (r ''hallticket'')) (rows df')))"
proof (cases "astype_int (column df ''hallticket'')")
  case None
  then have n: "\<not> (\<forall>r \<in> set (rows df). cell_int (r ''hallticket'') \<noteq> None)"
    by (auto simp: astype_int_None column_def)
  have p: "filter (\<lambda>r. \<not> isna (r ''hallticket'')) (rows df) = rows df"
    and m: "filter (\<lambda>r. isna (r ''hallticket'')) (rows df) = []"
    using assms(2) is_str_cell_not_na by (auto simp: filter_empty_conv)
  have "sort_by_hallticket df =
      Inr (df\<lparr>rows := sort_key (\<lambda>r. key_str (r ''hallticket'')) (rows df)\<rparr>)"
    using assms None by (simp add: sort_by_hallticket_def sort_values_str_def p m list_all_iff)
  with n show ?thesis by auto
next
  case (Some ks)
  then have k: "map (\<lambda>r. cell_int (r ''hallticket'')) (rows df) = map Some ks"
    by (simp add: astype_int_Some column_def comp_def)
  then have l: "length ks = length (rows df)"
    by (metis length_map)
  have a: "\<forall>r \<in> set (rows df). cell_int (r ''hallticket'') \<noteq> None"
  proof
    fix r assume "r \<in> set (rows df)"
    then have "cell_int (r ''hallticket'') \<in> set (map (\<lambda>r. cell_int (r ''hallticket'')) (rows df))"
      by auto
    then have "cell_int (r ''hallticket'') \<in> set (map Some ks)"
      by (simp only: k)
    then show "cell_int (r ''hallticket'') \<noteq> None" by auto
  qed
  let ?ps = "sort_key fst (zip ks (rows df))"
  have s: "sort_by_hallticket df = Inr (df\<lparr>rows := map snd ?ps\<rparr>)"
    using assms Some by (simp add: sort_by_hallticket_def)
  have "map (\<lambda>r. cell_int (r ''hallticket'')) (map snd ?ps) = map Some (map fst ?ps)"
    using k by (rule sort_pairs_keys)
  then have "map the (map (\<lambda>r. cell_int (r ''hallticket'')) (map snd ?ps)) = map the (map Some (map fst ?ps))"
    by (rule arg_cong)
  then have "map (\<lambda>r. the (cell_int (r ''hallticket''))) (map snd ?ps) = map fst ?ps"
    by (simp add: comp_def) 
  then have "sorted (map (\<lambda>r. the (cell_int (r ''hallticket''))) (map snd ?ps))"
    by (simp only: sorted_sort_key)
  moreover have "mset (map snd ?ps) = mset (rows df)"
    using l by (rule sort_pairs_mset)
  ultimately show ?thesis using s a by simp
qed

section \<open>The pipeline on a log of result records\<close>

lemma wf_results_frame:
  assumes "list_all is_result_record items"
  shows "frame_ok (DataFrame (map results_row items))"
    and "set (columns (DataFrame (map results_row items))) \<subseteq> known_columns"
    and "items \<noteq> [] \<Longrightarrow>
         {''hallticket'', ''student.hallticket'', ''result''} \<subseteq> set (columns (DataFrame (map results_row items)))"
    and "map (\<lambda>r. r ''hallticket'') (rows (DataFrame (map results_row items))) =
         map (\<lambda>i. Val (PStr (record_hallticket i))) items"
proof -
  have w: "is_result_record i" if "i \<in> set items" for i
    using that assms by (simp add: list_all_iff)
  show "frame_ok (DataFrame (map results_row items))"
    by (rule frame_ok_DataFrame) (use w wf_item_facts(6) in auto)
  show "set (columns (DataFrame (map results_row items))) \<subseteq> known_columns"
    using w wf_item_facts(5) by fastforce
  show "{''hallticket'', ''student.hallticket'', ''result''} \<subseteq> set (columns (DataFrame (map results_row items)))"
    if "items \<noteq> []"
  proof -
    from that obtain i where i: "i \<in> set items" by (cases items) auto
    from wf_item_facts(8) [OF w [OF i]] i show ?thesis
      by (simp del: insert_subset) blast
  qed
  show "map (\<lambda>r. r ''hallticket'') (rows (DataFrame (map results_row items))) =
         map (\<lambda>i. Val (PStr (record_hallticket i))) items"
    using w wf_item_facts(7) by (simp add: comp_def)
qed

lemma marks_frame_column:
  assumes "mr \<noteq> []" "\<forall>row \<in> set mr. \<exists>v. map_of row c = Some (PStr v)"
    "c \<in> set expected_mark_cols"
  shows "column (marks_frame mr) c = map (\<lambda>row. Val (the (map_of row c))) mr"
proof -
  have ne: "d \<noteq> []" if "d \<in> set mr" for d
    using assms(2) that by fastforce
  then have e: "\<not> is_empty (DataFrame mr)"
    using is_empty_DataFrame [of mr] assms(1) by simp
  from assms(1) obtain r0 where r0: "r0 \<in> set mr" by (cases mr) auto
  with assms(2) obtain v0 where "map_of r0 c = Some (PStr v0)" by auto
  then have "c \<in> fst ` set r0" by (auto dest: map_of_SomeD intro: rev_image_eqI)
  with r0 have cin: "c \<in> set (columns (DataFrame mr))" by auto
  have "(if c \<in> set expected_mark_cols \<and>
            isna (if c \<in> set (columns (DataFrame mr))
                  then case map_of row c of None \<Rightarrow> NaN | Some v \<Rightarrow> Val v else NaN)
         then Val (PStr [])
         else (if c \<in> set (columns (DataFrame mr))
               then case map_of row c of None \<Rightarrow> NaN | Some v \<Rightarrow> Val v else NaN)) =
        Val (the (map_of row c))" if "row \<in> set mr" for row
    using assms(2) that cin by (auto simp: isna_def)
  then show ?thesis
    using e by (simp add: marks_frame_def Let_def column_def comp_def del: DataFrame_simps(1))
qed

lemma wf_mark_rows:
  assumes "list_all is_result_record items" "row \<in> set (concat (map marks_rows_of items))"
  shows "\<exists>h c s cr g. row = [(''hallticket'', PStr h), (''code'', PStr c), (''subject'', PStr s),
            (''credits'', PStr cr), (''grade'', PStr g)]"
proof -
  from assms(2) obtain i where i: "i \<in> set items" and r: "row \<in> set (marks_rows_of i)" by auto
  from i assms(1) have w: "is_result_record i" by (simp add: list_all_iff)
  from r wf_marks_rows_of(1) [OF w] obtain m where m: "m \<in> set (record_marks i)"
    and row: "row = (''hallticket'', PStr (record_hallticket i)) # (case m of PDict d \<Rightarrow> d | _ \<Rightarrow> [])"
    by auto
  from wf_item_facts(4) [OF w] m have "is_mark m" by (simp add: list_all_iff)
  then show ?thesis using row by (elim is_mark_cases) (simp add: mk_mark_def)
qed

lemma wf_marks_frame:
  assumes "list_all is_result_record items" "all_codes items \<noteq> []"
  shows "map key_str (column (marks_frame (concat (map marks_rows_of items))) ''code'') = all_codes items"
    and "map key_str (column (marks_frame (concat (map marks_rows_of items))) ''hallticket'') =
         mark_tickets items"
    and "frame_ok (marks_frame (concat (map marks_rows_of items)))"
    and "concat (map marks_rows_of items) \<noteq> []"
proof -
  let ?mr = "concat (map marks_rows_of items)"
  have w: "is_result_record i" if "i \<in> set items" for i
    using that assms(1) by (simp add: list_all_iff)
  have mk: "is_mark m" if "i \<in> set items" "m \<in> set (record_marks i)" for i m
    using wf_item_facts(4) [OF w [OF that(1)]] that(2) by (simp add: list_all_iff)
  have rows_of: "marks_rows_of i =
     map (\<lambda>m. (''hallticket'', PStr (record_hallticket i)) # (case m of PDict d \<Rightarrow> d | _ \<Rightarrow> []))
       (record_marks i)" if "i \<in> set items" for i
    using wf_marks_rows_of(1) [OF w [OF that]] .
  have code: "key_str (Val (the (map_of (case m of PDict d \<Rightarrow> d | _ \<Rightarrow> []) ''code''))) =
      mark_code m" if "is_mark m" for m
    using that by (elim is_mark_cases) (simp add: mk_mark_def mark_code_def key_str_def dict_get_def)
  have tick: "key_str (Val (the (map_of ((''hallticket'', PStr h) # d) ''hallticket''))) = h" for h d
    by (simp add: key_str_def)
  have len: "length ?mr = length (all_codes items)"
    using rows_of by (simp add: all_codes_def length_concat comp_def cong: map_cong)
  with assms(2) show ne: "?mr \<noteq> []" by (metis length_0_conv)
  have shape: "\<forall>row \<in> set ?mr. \<exists>h c s cr g. row = [(''hallticket'', PStr h), (''code'', PStr c),
      (''subject'', PStr s), (''credits'', PStr cr), (''grade'', PStr g)]"
    using wf_mark_rows [OF assms(1)] by blast
  have c1: "column (marks_frame ?mr) ''code'' = map (\<lambda>row. Val (the (map_of row ''code''))) ?mr"
    by (rule marks_frame_column [OF ne]) (use shape in \<open>fastforce, simp add: expected_mark_cols_def\<close>)
  have c2: "column (marks_frame ?mr) ''hallticket'' = map (\<lambda>row. Val (the (map_of row ''hallticket''))) ?mr"
    by (rule marks_frame_column [OF ne]) (use shape in \<open>fastforce, simp add: expected_mark_cols_def\<close>)
  show "map key_str (column (marks_frame ?mr) ''code'') = all_codes items"
    unfolding c1 all_codes_def map_concat map_map
    by (rule arg_cong [where f = concat]) (auto simp: rows_of comp_def code mk)
  show "map key_str (column (marks_frame ?mr) ''hallticket'') = mark_tickets items"
    unfolding c2 mark_tickets_def map_concat map_map
    by (rule arg_cong [where f = concat]) (auto simp: rows_of comp_def key_str_def)
  show "frame_ok (marks_frame ?mr)"
  proof (rule frame_ok_marks_frame)
    fix d kv assume "d \<in> set ?mr" "kv \<in> set d"
    with shape show "simple_val (snd kv)" by (fastforce simp: simple_val_def is_str_def)
  qed
qed

lemma prefixed_not_hallticket:
  "filter (\<lambda>c. c \<noteq> ''hallticket'') (map (\<lambda>c. ''grade_'' @ c) A) = map (\<lambda>c. ''grade_'' @ c) A"
  "filter (\<lambda>c. c \<noteq> ''hallticket'') (map (\<lambda>c. ''credits_'' @ c) A) = map (\<lambda>c. ''credits_'' @ c) A"
  "filter (\<lambda>c. c \<noteq> ''hallticket'') (map (\<lambda>c. ''subject_'' @ c) A) = map (\<lambda>c. ''subject_'' @ c) A"
  by (induction A) auto

lemma main_merged_columns:
  "columns (main_merged dfr dfm) =
     columns dfr @
     map (\<lambda>c. ''grade_'' @ c) (sort (remdups (map key_str (column dfm ''code'')))) @
     map (\<lambda>c. ''credits_'' @ c) (sort (remdups (map key_str (column dfm ''code'')))) @
     map (\<lambda>c. ''subject_'' @ c) (sort (remdups (map key_str (column dfm ''code''))))"
  by (simp add: main_merged_def Let_def prefixed_not_hallticket)

lemma filter_key_absent:
  "k \<notin> (\<lambda>r. r ''hallticket'') ` set rs \<Longrightarrow> filter (\<lambda>r. r ''hallticket'' = k) rs = []"
  by (auto simp: filter_empty_conv)

lemma merge_left_widen:
  "rows (merge_left L (reset_index pre (pivot_table df v))) =
     map (widen (columns L) (reset_index pre (pivot_table df v))) (rows L)"
  unfolding widen_def by (rule merge_left_rows) (rule reset_index_keys_distinct)

lemma widen_key: "''hallticket'' \<in> set cols \<Longrightarrow> widen cols R l ''hallticket'' = l ''hallticket''"
  by (simp add: widen_def)

lemma widen_absent:
  "l ''hallticket'' \<notin> (\<lambda>r. r ''hallticket'') ` set (rows R) \<Longrightarrow> c \<notin> set cols \<Longrightarrow>
   widen cols R l c = NaN"
  by (simp add: widen_def filter_key_absent)

lemma widen_old: "c \<in> set cols \<Longrightarrow> widen cols R l c = l c"
  by (simp add: widen_def)

lemma pivot_keys:
  "(\<lambda>r. r ''hallticket'') ` set (rows (reset_index pre (pivot_table df v))) =
     (\<lambda>h. Val (PStr h)) ` set (map key_str (column df ''hallticket''))"
proof -
  have "(\<lambda>r. r ''hallticket'') ` set (rows (reset_index pre (pivot_table df v))) =
      set (map (\<lambda>r. r ''hallticket'') (rows (reset_index pre (pivot_table df v))))"
    by simp
  also have "\<dots> = set (map (\<lambda>h. Val (PStr h)) (pindex (pivot_table df v)))"
    by (simp only: reset_index_keys)
  finally show ?thesis by simp
qed

lemma main_merged_rows:
  "rows (main_merged dfr dfm) = map (main_widen dfr dfm) (rows dfr)"
  by (simp add: main_merged_def main_widen_def Let_def merge_left_widen comp_def
      del: merge_left_columns)

lemma main_widen_key:
  "''hallticket'' \<in> set (columns dfr) \<Longrightarrow> main_widen dfr dfm l ''hallticket'' = l ''hallticket''"
  by (simp add: main_widen_def Let_def widen_key)

lemma main_widen_old:
  "c \<in> set (columns dfr) \<Longrightarrow> main_widen dfr dfm l c = l c"
  by (simp add: main_widen_def Let_def widen_old)

lemma main_widen_absent:
  assumes "''hallticket'' \<in> set (columns dfr)"
    and "l ''hallticket'' \<notin> (\<lambda>h. Val (PStr h)) ` set (map key_str (column dfm ''hallticket''))"
    and "c \<notin> set (columns dfr)"
  shows "main_widen dfr dfm l c = NaN"
proof -
  let ?G = "reset_index ''grade_'' (pivot_table dfm ''grade'')"
  let ?C = "reset_index ''credits_'' (pivot_table dfm ''credits'')"
  let ?S = "reset_index ''subject_'' (pivot_table dfm ''subject'')"
  let ?c2 = "columns (merge_left dfr ?G)"
  let ?c3 = "columns (merge_left (merge_left dfr ?G) ?C)"
  let ?w1 = "widen (columns dfr) ?G l"
  let ?w2 = "widen ?c2 ?C ?w1"
  have k1: "?w1 ''hallticket'' = l ''hallticket''"
    using assms(1) by (simp add: widen_key)
  have k2: "?w2 ''hallticket'' = l ''hallticket''"
    using assms(1) k1 by (simp add: widen_key)
  have a1: "?w1 c = NaN"
    using assms(2,3) by (intro widen_absent) (simp_all only: pivot_keys, simp_all)
  have a2: "?w2 c = NaN"
  proof (cases "c \<in> set ?c2")
    case True
    then show ?thesis using a1 by (simp only: widen_old)
  next
    case False
    then show ?thesis
      using assms(2) k1 by (intro widen_absent) (simp_all only: pivot_keys, simp_all)
  qed
  have "widen ?c3 ?S ?w2 c = NaN"
  proof (cases "c \<in> set ?c3")
    case True
    then show ?thesis using a2 by (simp only: widen_old)
  next
    case False
    then show ?thesis
      using assms(2) k2 by (intro widen_absent) (simp_all only: pivot_keys, simp_all)
  qed
  then show ?thesis by (simp add: main_widen_def Let_def)
qed

lemma frame_ok_main_merged:
  "frame_ok dfr \<Longrightarrow> frame_ok dfm \<Longrightarrow> frame_ok (main_merged dfr dfm)"
  by (simp add: main_merged_def Let_def frame_ok_merge_left frame_ok_reset_index)

lemma value_counts_index_set [simp]: "set (value_counts_index codes) = set codes"
  by (simp add: value_counts_index_def)

lemma value_counts_index_distinct [simp]: "distinct (value_counts_index codes)"
  by (simp add: value_counts_index_def)

lemma value_counts_index_sorted:
  "sorted (map (\<lambda>c. - int (count_list codes c)) (value_counts_index codes))"
  by (simp add: value_counts_index_def)

lemma is_pivot_col_prefixed [simp]:
  "is_pivot_col (''grade_'' @ c)" "is_pivot_col (''credits_'' @ c)" "is_pivot_col (''subject_'' @ c)"
  by (simp_all add: is_pivot_col_def startswith_def)

lemma known_not_pivot: "c \<in> known_columns \<Longrightarrow> \<not> is_pivot_col c"
  by (auto simp: known_columns_def is_pivot_col_def startswith_def)

lemma core_pref_known: "set core_pref \<subseteq> known_columns"
  by (simp add: core_pref_def known_columns_def)

lemma code_columns_pivot: "c \<in> set (code_columns code) \<Longrightarrow> is_pivot_col c"
  by (auto simp: code_columns_def is_pivot_col_def startswith_def)

lemma final_cols_wf:
  assumes "set cols \<subseteq> known_columns" "set by_freq = set A"
  shows "final_cols (cols @ map (\<lambda>c. ''grade_'' @ c) A @ map (\<lambda>c. ''credits_'' @ c) A @
                     map (\<lambda>c. ''subject_'' @ c) A) by_freq =
     filter (\<lambda>c. c \<in> set cols) core_pref @ concat (map code_columns by_freq) @
     filter (\<lambda>c. c \<notin> set core_pref) cols"
proof -
  let ?G = "map (\<lambda>c. ''grade_'' @ c) A"
  let ?C = "map (\<lambda>c. ''credits_'' @ c) A"
  let ?S = "map (\<lambda>c. ''subject_'' @ c) A"
  let ?all = "cols @ ?G @ ?C @ ?S"
  have np: "\<not> is_pivot_col c" if "c \<in> set cols" for c
    using that assms(1) known_not_pivot by auto
  have pv: "is_pivot_col c" if "c \<in> set ?G \<union> set ?C \<union> set ?S" for c
    using that by (auto simp: is_pivot_col_def startswith_def)
  have core: "filter (\<lambda>c. c \<in> set ?all) core_pref = filter (\<lambda>c. c \<in> set cols) core_pref"
  proof (rule filter_cong [OF refl])
    fix c assume "c \<in> set core_pref"
    then have "\<not> is_pivot_col c" using core_pref_known known_not_pivot by auto
    then have "c \<notin> set ?G \<union> set ?C \<union> set ?S" using pv by blast
    then show "(c \<in> set ?all) = (c \<in> set cols)" by auto
  qed
  have sub: "subject_cols_of ?all by_freq = concat (map code_columns by_freq)"
  proof -
    have "filter (\<lambda>p. p \<in> set ?all) [''grade_'' @ code, ''credits_'' @ code, ''subject_'' @ code] =
        code_columns code" if "code \<in> set by_freq" for code
      using that assms(2) by (simp add: code_columns_def)
    then show ?thesis
      unfolding subject_cols_of_def by (simp cong: map_cong)
  qed
  have sc: "set (concat (map code_columns by_freq)) = set ?G \<union> set ?C \<union> set ?S"
    using assms(2) by (auto simp: code_columns_def)
  have rem: "filter (\<lambda>c. is_pivot_col c \<and> c \<notin> set (concat (map code_columns by_freq))) ?all = []"
    unfolding sc using np by (auto simp: filter_empty_conv)
  have oth: "filter (\<lambda>c. c \<notin> set (filter (\<lambda>c. c \<in> set cols) core_pref @
                 concat (map code_columns by_freq) @ sort [])) ?all =
      filter (\<lambda>c. c \<notin> set core_pref) cols"
  proof -
    have 1: "filter (\<lambda>c. c \<notin> set (filter (\<lambda>c. c \<in> set cols) core_pref @
                 concat (map code_columns by_freq) @ sort [])) cols =
        filter (\<lambda>c. c \<notin> set core_pref) cols"
    proof (rule filter_cong [OF refl])
      fix c assume c: "c \<in> set cols"
      then have "c \<notin> set ?G \<union> set ?C \<union> set ?S" using np pv by blast
      with c show "(c \<notin> set (filter (\<lambda>c. c \<in> set cols) core_pref @
                 concat (map code_columns by_freq) @ sort [])) = (c \<notin> set core_pref)"
        unfolding set_append sc by auto
    qed
    have 2: "filter (\<lambda>c. c \<notin> set (filter (\<lambda>c. c \<in> set cols) core_pref @
                 concat (map code_columns by_freq) @ sort [])) (?G @ ?C @ ?S) = []"
      unfolding set_append sc by (auto simp: filter_empty_conv)
    from 1 2 show ?thesis by (simp only: filter_append append_Nil2)
  qed
  show ?thesis
    unfolding final_cols_def Let_def core sub rem oth by simp
qed

lemma all_codes_items: "all_codes items \<noteq> [] \<Longrightarrow> items \<noteq> []"
  by (auto simp: all_codes_def)

lemma main_reordered_columns_wf:
  assumes "list_all is_result_record items" "all_codes items \<noteq> []"
  shows "columns (main_reordered (results_frame items) (marks_frame_of items)) =
     filter (\<lambda>c. c \<in> set (columns (results_frame items))) core_pref @
     concat (map code_columns (value_counts_index (all_codes items))) @
     filter (\<lambda>c. c \<notin> set core_pref) (columns (results_frame items))"
proof -
  have k: "set (columns (results_frame items)) \<subseteq> known_columns"
    unfolding results_frame_def using assms(1) by (rule wf_results_frame)
  have c: "map key_str (column (marks_frame_of items) ''code'') = all_codes items"
    unfolding marks_frame_of_def using assms by (rule wf_marks_frame)
  have s: "set (value_counts_index (all_codes items)) = set (sort (remdups (all_codes items)))"
    by simp
  show ?thesis
    unfolding main_reordered_def Let_def reindex_simps main_merged_columns codes_sorted_of_def c
    by (rule final_cols_wf [OF k s])
qed

lemma main_reordered_rows:
  "rows (main_reordered dfr dfm) =
     map (\<lambda>l c. if c \<in> set (columns (main_merged dfr dfm)) then main_widen dfr dfm l c else NaN)
       (rows dfr)"
  by (simp add: main_reordered_def Let_def main_merged_rows comp_def)

lemma frame_ok_main_reordered:
  "frame_ok dfr \<Longrightarrow> frame_ok dfm \<Longrightarrow> frame_ok (main_reordered dfr dfm)"
  by (simp add: main_reordered_def Let_def frame_ok_reindex frame_ok_main_merged)

lemma main_reordered_tickets:
  assumes "''hallticket'' \<in> set (columns dfr)"
  shows "map (\<lambda>r. r ''hallticket'') (rows (main_reordered dfr dfm)) =
         map (\<lambda>r. r ''hallticket'') (rows dfr)"
  using assms by (simp add: main_reordered_rows comp_def main_merged_columns main_widen_key)

lemma frame_ok_mset: "mset (rows df') = mset (rows df) \<Longrightarrow> frame_ok df \<Longrightarrow> frame_ok df'"
  by (metis frame_ok_def set_mset_mset)

lemma wf_tickets_main:
  assumes "list_all is_result_record items" "items \<noteq> []"
  shows "map (\<lambda>r. r ''hallticket'') (rows (main_reordered (results_frame items) dfm)) =
         map (\<lambda>i. Val (PStr (record_hallticket i))) items"
proof -
  have "''hallticket'' \<in> set (columns (results_frame items))"
    unfolding results_frame_def using wf_results_frame(3) [OF assms] by simp
  then show ?thesis
    by (simp only: main_reordered_tickets) (simp only: results_frame_def wf_results_frame(4) [OF assms(1)])
qed

lemma main_convert_wf:
  assumes "list_all is_result_record items" "all_codes items \<noteq> []"
  shows "\<exists>df'. sort_by_hallticket (main_reordered (results_frame items) (marks_frame_of items)) = Inr df' \<and>
     main_convert items =
       Inr [(''results'', sheet_of df'),
            (''grades'', sheet_of (reset_index ''grade_'' (pivot_table (marks_frame_of items) ''grade''))),
            (''marks'', sheet_of (marks_frame_of items)),
            (''raw'', sheet_of (raw_frame items))] \<and>
     columns df' = columns (main_reordered (results_frame items) (marks_frame_of items)) \<and>
     mset (rows df') = mset (rows (main_reordered (results_frame items) (marks_frame_of items))) \<and>
     (if \<forall>i \<in> set items. ticket_int (record_hallticket i) \<noteq> None
      then sorted (map (\<lambda>r. the (cell_int (r ''hallticket''))) (rows df'))
      else sorted (map (\<lambda>r. key_str (r ''hallticket'')) (rows df')))"
proof -
  let ?dfr = "results_frame items" and ?dfm = "marks_frame_of items"
  let ?R = "main_reordered ?dfr ?dfm"
  from assms(2) have ne: "items \<noteq> []" by (rule all_codes_items)
  have okr: "frame_ok ?dfr" unfolding results_frame_def using assms(1) by (rule wf_results_frame)
  have okm: "frame_ok ?dfm" unfolding marks_frame_of_def using assms by (rule wf_marks_frame)
  have okR: "frame_ok ?R" using okr okm by (rule frame_ok_main_reordered)
  have mrne: "concat (map marks_rows_of items) \<noteq> []" using assms by (rule wf_marks_frame)
  have nonempty: "\<not> is_empty ?dfm"
    unfolding marks_frame_of_def
    using is_empty_marks_frame [of "concat (map marks_rows_of items)"] marks_rows_of_nonempty mrne
    by auto
  have tick: "map (\<lambda>r. r ''hallticket'') (rows ?R) = map (\<lambda>i. Val (PStr (record_hallticket i))) items"
    using assms(1) ne by (rule wf_tickets_main)
  have cols: "''hallticket'' \<in> set (columns ?R)"
  proof -
    have "''hallticket'' \<in> set (columns ?dfr)"
      unfolding results_frame_def using wf_results_frame(3) [OF assms(1) ne] by simp
    then show ?thesis
      by (simp add: main_reordered_columns_wf [OF assms] core_pref_def)
  qed
  have img: "(\<lambda>r. r ''hallticket'') ` set (rows ?R) = (\<lambda>i. Val (PStr (record_hallticket i))) ` set items"
  proof -
    have "set (map (\<lambda>r. r ''hallticket'') (rows ?R)) = set (map (\<lambda>i. Val (PStr (record_hallticket i))) items)"
      by (simp only: tick)
    then show ?thesis by simp
  qed
  have strs: "\<forall>r \<in> set (rows ?R). is_str_cell (r ''hallticket'')"
    using img by (auto simp: is_str_cell_iff)
  have cond: "(\<forall>r \<in> set (rows ?R). cell_int (r ''hallticket'') \<noteq> None) \<longleftrightarrow>
      (\<forall>i \<in> set items. ticket_int (record_hallticket i) \<noteq> None)"
  proof -
    have "(\<forall>r \<in> set (rows ?R). cell_int (r ''hallticket'') \<noteq> None) \<longleftrightarrow>
        (\<forall>c \<in> (\<lambda>r. r ''hallticket'') ` set (rows ?R). cell_int c \<noteq> None)"
      by blast
    also have "\<dots> \<longleftrightarrow> (\<forall>c \<in> (\<lambda>i. Val (PStr (record_hallticket i))) ` set items. cell_int c \<noteq> None)"
      by (simp only: img)
    also have "\<dots> \<longleftrightarrow> (\<forall>i \<in> set items. ticket_int (record_hallticket i) \<noteq> None)"
      by (simp add: ticket_int_def)
    finally show ?thesis .
  qed
  from sort_by_hallticket_spec [OF cols strs] obtain df' where
    s: "sort_by_hallticket ?R = Inr df'" and c: "columns df' = columns ?R"
    and m: "mset (rows df') = mset (rows ?R)"
    and o: "if \<forall>r \<in> set (rows ?R). cell_int (r ''hallticket'') \<noteq> None
       then sorted (map (\<lambda>r. the (cell_int (r ''hallticket''))) (rows df'))
       else sorted (map (\<lambda>r. key_str (r ''hallticket'')) (rows df'))"
    by blast
  have ok': "frame_ok df'" using m okR by (rule frame_ok_mset)
  have okg: "frame_ok (reset_index ''grade_'' (pivot_table ?dfm ''grade''))"
    using okm by (rule frame_ok_reset_index)
  have "main_convert items =
       Inr [(''results'', sheet_of df'),
            (''grades'', sheet_of (reset_index ''grade_'' (pivot_table ?dfm ''grade''))),
            (''marks'', sheet_of ?dfm),
            (''raw'', sheet_of (raw_frame items))]"
    using nonempty s
    by (simp add: main_convert_def collect_wf [OF assms(1)] Let_def main_results_def write_sheets_def
        to_excel_ok [OF ok'] to_excel_ok [OF okg] to_excel_ok [OF okm] to_excel_ok [OF frame_ok_raw]
        results_frame_def [symmetric] marks_frame_of_def [symmetric])
  with s c m o cond show ?thesis by auto
qed

lemma excel_merged_rows:
  "rows (excel_merged dfr dfm) =
     (if \<not> is_empty dfm then map (excel_widen dfr dfm) (rows dfr) else rows dfr)"
  by (simp add: excel_merged_def excel_widen_def Let_def merge_left_widen comp_def
      del: merge_left_columns)

lemma excel_merged_columns_sup: "set (columns dfr) \<subseteq> set (columns (excel_merged dfr dfm))"
  by (auto simp: excel_merged_def)

lemma excel_widen_old:
  "c \<in> set (columns dfr) \<Longrightarrow> excel_widen dfr dfm l c = l c"
  by (simp add: excel_widen_def Let_def widen_old)

lemma excel_widen_absent:
  assumes "''hallticket'' \<in> set (columns dfr)"
    and "l ''hallticket'' \<notin> (\<lambda>h. Val (PStr h)) ` set (map key_str (column dfm ''hallticket''))"
    and "c \<notin> set (columns dfr)"
  shows "excel_widen dfr dfm l c = NaN"
proof -
  let ?G = "reset_index [] (pivot_table dfm ''grade'')"
  let ?C = "reset_index ''credits_'' (pivot_table dfm ''credits'')"
  let ?S = "reset_index ''subject_'' (pivot_table dfm ''subject'')"
  let ?c2 = "columns (merge_left dfr ?G)"
  let ?c3 = "columns (merge_left (merge_left dfr ?G) ?C)"
  let ?w1 = "widen (columns dfr) ?G l"
  let ?w2 = "widen ?c2 ?C ?w1"
  have k1: "?w1 ''hallticket'' = l ''hallticket''"
    using assms(1) by (simp add: widen_key)
  have k2: "?w2 ''hallticket'' = l ''hallticket''"
    using assms(1) k1 by (simp add: widen_key)
  have a1: "?w1 c = NaN"
    using assms(2,3) by (intro widen_absent) (simp_all only: pivot_keys, simp_all)
  have a2: "?w2 c = NaN"
  proof (cases "c \<in> set ?c2")
    case True
    then show ?thesis using a1 by (simp only: widen_old)
  next
    case False
    then show ?thesis
      using assms(2) k1 by (intro widen_absent) (simp_all only: pivot_keys, simp_all)
  qed
  have "widen ?c3 ?S ?w2 c = NaN"
  proof (cases "c \<in> set ?c3")
    case True
    then show ?thesis using a2 by (simp only: widen_old)
  next
    case False
    then show ?thesis
      using assms(2) k2 by (intro widen_absent) (simp_all only: pivot_keys, simp_all)
  qed
  then show ?thesis by (simp add: excel_widen_def Let_def)
qed

lemma frame_ok_excel_merged:
  "frame_ok dfr \<Longrightarrow> frame_ok dfm \<Longrightarrow> frame_ok (excel_merged dfr dfm)"
  by (simp add: excel_merged_def frame_ok_merge_left frame_ok_reset_index)

lemma add_missing_id: "set cs \<subseteq> set (columns df) \<Longrightarrow> add_missing cs df = df"
  by (induction cs) auto

lemma excel_cols_subset: "set (excel_cols cols codes) \<subseteq> set cols"
  by (auto simp: excel_cols_def Let_def)

lemma excel_cols_hallticket: "''hallticket'' \<in> set cols \<Longrightarrow> ''hallticket'' \<in> set (excel_cols cols codes)"
  by (simp add: excel_cols_def Let_def)

lemma excel_reordered_eq:
  "excel_reordered dfr dfm =
     fillna (PStr [])
       (reindex (excel_cols (columns (excel_merged dfr dfm))
                   (if \<not> is_empty dfm then codes_sorted_of dfm else []))
          (excel_merged dfr dfm))"
  by (simp add: excel_reordered_def Let_def add_missing_id excel_cols_subset)

lemma frame_ok_excel_reordered:
  "frame_ok dfr \<Longrightarrow> frame_ok dfm \<Longrightarrow> frame_ok (excel_reordered dfr dfm)"
  by (simp only: excel_reordered_eq frame_ok_fillna frame_ok_reindex frame_ok_excel_merged)

lemma excel_reordered_columns:
  "columns (excel_reordered dfr dfm) =
     excel_cols (columns (excel_merged dfr dfm)) (if \<not> is_empty dfm then codes_sorted_of dfm else [])"
  by (simp add: excel_reordered_eq)

lemma excel_reordered_rows:
  "rows (excel_reordered dfr dfm) =
     map (\<lambda>l c. if c \<in> set (excel_cols (columns (excel_merged dfr dfm))
                                 (if \<not> is_empty dfm then codes_sorted_of dfm else [])) \<and>
                    isna ((if \<not> is_empty dfm then excel_widen dfr dfm l else l) c)
                 then Val (PStr [])
                 else if c \<in> set (columns (excel_merged dfr dfm))
                      then (if \<not> is_empty dfm then excel_widen dfr dfm l else l) c else NaN)
       (rows dfr)"
proof -
  let ?E = "excel_merged dfr dfm"
  let ?cs = "excel_cols (columns ?E) (if \<not> is_empty dfm then codes_sorted_of dfm else [])"
  have sub: "set ?cs \<subseteq> set (columns ?E)"
    by (rule excel_cols_subset)
  have e: "(\<lambda>c. if c \<in> set ?cs \<and> isna (if c \<in> set (columns ?E) then w c else NaN)
         then Val (PStr [])
         else if c \<in> set (columns ?E) then w c else NaN) =
        (\<lambda>c. if c \<in> set ?cs \<and> isna (w c)
         then Val (PStr [])
         else if c \<in> set (columns ?E) then w c else NaN)" for w
    using sub by (intro ext) auto
  have "rows (excel_reordered dfr dfm) =
      map (\<lambda>r c. if c \<in> set ?cs \<and> isna (if c \<in> set (columns ?E) then r c else NaN)
                  then Val (PStr [])
                  else if c \<in> set (columns ?E) then r c else NaN) (rows ?E)"
    unfolding excel_reordered_eq fillna_simps reindex_simps map_map comp_def ..
  also have "\<dots> = map (\<lambda>r c. if c \<in> set ?cs \<and> isna (r c)
                  then Val (PStr [])
                  else if c \<in> set (columns ?E) then r c else NaN) (rows ?E)"
    unfolding e ..
  also have "rows ?E = map (\<lambda>l. if \<not> is_empty dfm then excel_widen dfr dfm l else l) (rows dfr)"
    unfolding excel_merged_rows by simp
  finally show ?thesis
    unfolding map_map comp_def .
qed

lemma excel_reordered_tickets:
  assumes "''hallticket'' \<in> set (columns dfr)" "\<forall>r \<in> set (rows dfr). is_str_cell (r ''hallticket'')"
  shows "map (\<lambda>r. r ''hallticket'') (rows (excel_reordered dfr dfm)) =
         map (\<lambda>r. r ''hallticket'') (rows dfr)"
proof -
  have m: "''hallticket'' \<in> set (columns (excel_merged dfr dfm))"
    using assms(1) excel_merged_columns_sup by blast
  have w: "(if \<not> is_empty dfm then excel_widen dfr dfm l else l) ''hallticket'' = l ''hallticket''" for l
    using assms(1) by (simp add: excel_widen_old)
  have "\<not> isna (l ''hallticket'')" if "l \<in> set (rows dfr)" for l
    using that assms(2) is_str_cell_not_na by blast
  then show ?thesis
    unfolding excel_reordered_rows map_map comp_def w using m by (intro map_cong) auto
qed

lemma frame_ok_marks_wf:
  assumes "list_all is_result_record items"
  shows "frame_ok (marks_frame_of items)"
  unfolding marks_frame_of_def
proof (rule frame_ok_marks_frame)
  fix d kv assume "d \<in> set (concat (map marks_rows_of items))" "kv \<in> set d"
  with wf_mark_rows [OF assms] show "simple_val (snd kv)"
    by (fastforce simp: simple_val_def is_str_def)
qed

lemma wf_tickets_excel:
  assumes "list_all is_result_record items" "items \<noteq> []"
  shows "map (\<lambda>r. r ''hallticket'') (rows (excel_reordered (results_frame items) dfm)) =
         map (\<lambda>i. Val (PStr (record_hallticket i))) items"
proof -
  have c: "''hallticket'' \<in> set (columns (results_frame items))"
    unfolding results_frame_def using wf_results_frame(3) [OF assms] by simp
  have t: "map (\<lambda>r. r ''hallticket'') (rows (results_frame items)) =
         map (\<lambda>i. Val (PStr (record_hallticket i))) items"
    unfolding results_frame_def using assms(1) by (rule wf_results_frame)
  have "set (map (\<lambda>r. r ''hallticket'') (rows (results_frame items))) =
      set (map (\<lambda>i. Val (PStr (record_hallticket i))) items)"
    by (simp only: t)
  then have s: "\<forall>r \<in> set (rows (results_frame items)). is_str_cell (r ''hallticket'')"
    by (auto simp: is_str_cell_iff)
  show ?thesis
    by (simp only: excel_reordered_tickets [OF c s] t)
qed

lemma items_to_excel_wf:
  assumes "list_all is_result_record items" "items \<noteq> []"
  shows "\<exists>df'. sort_by_hallticket (excel_reordered (results_frame items) (marks_frame_of items)) = Inr df' \<and>
     items_to_excel items =
       Inr [(''results'', sheet_of df'),
            (''grades'', sheet_of (if \<not> is_empty (marks_frame_of items)
                                   then reset_index [] (pivot_table (marks_frame_of items) ''grade'')
                                   else empty_frame [''hallticket''])),
            (''marks'', sheet_of (marks_frame_of items)),
            (''raw'', sheet_of (raw_frame items))] \<and>
     columns df' = columns (excel_reordered (results_frame items) (marks_frame_of items)) \<and>
     mset (rows df') = mset (rows (excel_reordered (results_frame items) (marks_frame_of items))) \<and>
     (if \<forall>i \<in> set items. ticket_int (record_hallticket i) \<noteq> None
      then sorted (map (\<lambda>r. the (cell_int (r ''hallticket''))) (rows df'))
      else sorted (map (\<lambda>r. key_str (r ''hallticket'')) (rows df')))"
proof -
  let ?dfr = "results_frame items" and ?dfm = "marks_frame_of items"
  let ?R = "excel_reordered ?dfr ?dfm"
  let ?G = "if \<not> is_empty ?dfm then reset_index [] (pivot_table ?dfm ''grade'')
            else empty_frame [''hallticket'']"
  have okr: "frame_ok ?dfr" unfolding results_frame_def using assms(1) by (rule wf_results_frame)
  have okm: "frame_ok ?dfm" using assms(1) by (rule frame_ok_marks_wf)
  have okR: "frame_ok ?R" using okr okm by (rule frame_ok_excel_reordered)
  have tick: "map (\<lambda>r. r ''hallticket'') (rows ?R) = map (\<lambda>i. Val (PStr (record_hallticket i))) items"
    using assms by (rule wf_tickets_excel)
  have cols: "''hallticket'' \<in> set (columns ?R)"
  proof -
    have "''hallticket'' \<in> set (columns ?dfr)"
      unfolding results_frame_def using wf_results_frame(3) [OF assms] by simp
    then have "''hallticket'' \<in> set (columns (excel_merged ?dfr ?dfm))"
      using excel_merged_columns_sup by blast
    then show ?thesis
      by (simp only: excel_reordered_columns excel_cols_hallticket)
  qed
  have img: "(\<lambda>r. r ''hallticket'') ` set (rows ?R) = (\<lambda>i. Val (PStr (record_hallticket i))) ` set items"
  proof -
    have "set (map (\<lambda>r. r ''hallticket'') (rows ?R)) = set (map (\<lambda>i. Val (PStr (record_hallticket i))) items)"
      by (simp only: tick)
    then show ?thesis by simp
  qed
  have strs: "\<forall>r \<in> set (rows ?R). is_str_cell (r ''hallticket'')"
    using img by (auto simp: is_str_cell_iff)
  have cond: "(\<forall>r \<in> set (rows ?R). cell_int (r ''hallticket'') \<noteq> None) \<longleftrightarrow>
      (\<forall>i \<in> set items. ticket_int (record_hallticket i) \<noteq> None)"
  proof -
    have "(\<forall>r \<in> set (rows ?R). cell_int (r ''hallticket'') \<noteq> None) \<longleftrightarrow>
        (\<forall>c \<in> (\<lambda>r. r ''hallticket'') ` set (rows ?R). cell_int c \<noteq> None)"
      by blast
    also have "\<dots> \<longleftrightarrow> (\<forall>c \<in> (\<lambda>i. Val (PStr (record_hallticket i))) ` set items. cell_int c \<noteq> None)"
      by (simp only: img)
    also have "\<dots> \<longleftrightarrow> (\<forall>i \<in> set items. ticket_int (record_hallticket i) \<noteq> None)"
      by (simp add: ticket_int_def)
    finally show ?thesis .
  qed
  from sort_by_hallticket_spec [OF cols strs] obtain df' where
    s: "sort_by_hallticket ?R = Inr df'" and c: "columns df' = columns ?R"
    and m: "mset (rows df') = mset (rows ?R)"
    and o: "if \<forall>r \<in> set (rows ?R). cell_int (r ''hallticket'') \<noteq> None
       then sorted (map (\<lambda>r. the (cell_int (r ''hallticket''))) (rows df'))
       else sorted (map (\<lambda>r. key_str (r ''hallticket'')) (rows df'))"
    by blast
  have ok': "frame_ok df'" using m okR by (rule frame_ok_mset)
  have okg: "frame_ok ?G"
    using okm by (simp add: frame_ok_reset_index frame_ok_empty)
  have "items_to_excel items =
       Inr [(''results'', sheet_of df'), (''grades'', sheet_of ?G),
            (''marks'', sheet_of ?dfm), (''raw'', sheet_of (raw_frame items))]"
    using s
    by (simp add: items_to_excel_def collect_wf [OF assms(1)] Let_def excel_results_def write_sheets_def
        to_excel_ok [OF ok'] to_excel_ok [OF okg] to_excel_ok [OF okm] to_excel_ok [OF frame_ok_raw]
        results_frame_def [symmetric] marks_frame_of_def [symmetric] del: if_split cong: if_cong)
  with s c m o cond show ?thesis by auto
qed

section \<open>Properties of the log readers\<close>

lemma read_loop_spec:
  "read_loop loads ls acc =
     acc @ List.map_filter (\<lambda>l. if strip l = [] then None else loads (strip l)) ls"
  by (induction ls arbitrary: acc) (auto simp: Let_def List.map_filter_simps split: option.splits)

text \<open>
  The loop of \<^verbatim>\<open>main\<close> gives the values of the lines of the file that parse, in file
  order, whatever \<^verbatim>\<open>json.loads\<close> does on the others.
\<close>

lemma main_read_log_spec:
  "main_read_log loads content =
     List.map_filter (\<lambda>l. if strip l = [] then None else loads (strip l)) (file_lines content)"
  by (simp add: main_read_log_def read_loop_spec)

text \<open>
  \<^verbatim>\<open>load_items\<close> on a text that does not start with a bracket returns and does the same
  on the pieces \<^verbatim>\<open>splitlines\<close> cuts the text into.
\<close>

lemma load_items_ndjson:
  "\<not> startswith (strip (universal_newlines content)) ''['' \<Longrightarrow>
   load_items loads content =
     Inr (PList (List.map_filter (\<lambda>l. if strip l = [] then None else loads (strip l))
                   (splitlines (strip (universal_newlines content)))))"
  by (auto simp: load_items_def Let_def read_loop_spec splitlines_def List.map_filter_simps)

text \<open>
  Claim C6, at a failing input. The worker parses a page whose name cell holds U+0085 and
  appends the record to an empty staging log: the log is one line, the dump of the record,
  with the hall ticket 110624861001. \<^verbatim>\<open>load_items\<close> reads no record back from that log:
  \<^verbatim>\<open>splitlines\<close> cuts the line at U+0085 and neither half parses. The hall ticket that was
  appended is not among those read back.
\<close>

theorem round_trip_drops_record:
  "nel_log = json_dumps nel_record @ [CHR 0x0A] \<and>
   hallticket_of nel_record = Inr (PStr ''110624861001'') \<and>
   load_items json_loads nel_log = Inr (PList [])"
  by code_simp

text \<open>
  Claim C10, at a failing input. A staging log of two lines, each the dump of a record:
  both lines parse, and the loop of \<^verbatim>\<open>main\<close> gives both records in file order.
  \<^verbatim>\<open>load_items\<close> gives the first record only: it cuts the second line at the U+0085 in
  its name and skips the halves, so a well-formed line is left out.
\<close>

theorem load_items_skips_well_formed_line:
  "file_lines two_line_log =
     [json_dumps (placeholder ''110624861000'') @ [CHR 0x0A], json_dumps nel_record @ [CHR 0x0A]] \<and>
   json_loads (json_dumps (placeholder ''110624861000'')) = Some (placeholder ''110624861000'') \<and>
   json_loads (json_dumps nel_record) = Some nel_record \<and>
   main_read_log json_loads two_line_log = [placeholder ''110624861000'', nel_record] \<and>
   load_items json_loads two_line_log = Inr (PList [placeholder ''110624861000''])"
  by code_simp

section \<open>The final conversion without marks\<close>

text \<open>
  Claim C9. In the final conversion of \<^verbatim>\<open>main\<close>, merging, reordering and sorting run
  only when the log has a mark row. When no record of the log has a mark, the results sheet
  is the frame of the flattened records as \<^verbatim>\<open>pd.DataFrame\<close> built it: the header is the
  keys in the order of their first appearance, and row \<open>i\<close> is record \<open>i\<close> of the log.
\<close>

theorem no_marks_no_reorder:
  "collect final [] [] = Inr (results_rows, marks_rows) \<Longrightarrow>
     results_rows = map results_row final \<and>
     (marks_rows = [] \<longrightarrow>
        main_convert final =
          bind_res (to_excel (DataFrame results_rows)) (\<lambda>s1.
          bind_res (to_excel (raw_frame final)) (\<lambda>s4.
          Inr [(''results'', s1),
               (''grades'', \<lparr>header = [''hallticket''], sheet_rows = []\<rparr>),
               (''marks'', \<lparr>header = expected_mark_cols, sheet_rows = []\<rparr>),
               (''raw'', s4)]))) \<and>
     (marks_rows \<noteq> [] \<longrightarrow>
        main_convert final =
          bind_res (main_results (DataFrame results_rows) (marks_frame marks_rows)) (\<lambda>df_sorted.
            write_sheets df_sorted
              (reset_index ''grade_'' (pivot_table (marks_frame marks_rows) ''grade''))
              (marks_frame marks_rows) (raw_frame final))) \<and>
     (\<forall>s. to_excel (DataFrame results_rows) = Inr s \<longrightarrow>
        header s = unique (concat (map (map fst) results_rows)) \<and>
        length (sheet_rows s) = length final \<and>
        (\<forall>i < length final. \<forall>j < length (header s).
           xl_of (case map_of (results_row (final ! i)) (header s ! j) of
                    None \<Rightarrow> NaN | Some v \<Rightarrow> Val v) = Inr (sheet_rows s ! i ! j)))"
proof -
  assume c: "collect final [] [] = Inr (results_rows, marks_rows)"
  from collect_spec [OF c] have rr: "results_rows = map results_row final"
    and mr: "marks_rows = concat (map marks_rows_of final)"
    by simp_all
  have ne: "d \<noteq> []" if "d \<in> set marks_rows" for d
    using that mr marks_rows_of_nonempty by auto
  have e: "is_empty (marks_frame marks_rows) \<longleftrightarrow> marks_rows = []"
    using ne by (rule is_empty_marks_frame)
  have m0: "marks_frame [] = empty_frame expected_mark_cols"
    by (simp add: marks_frame_def Let_def is_empty_def DataFrame_def unique_def)
  have a: "marks_rows = [] \<longrightarrow>
        main_convert final =
          bind_res (to_excel (DataFrame results_rows)) (\<lambda>s1.
          bind_res (to_excel (raw_frame final)) (\<lambda>s4.
          Inr [(''results'', s1),
               (''grades'', \<lparr>header = [''hallticket''], sheet_rows = []\<rparr>),
               (''marks'', \<lparr>header = expected_mark_cols, sheet_rows = []\<rparr>),
               (''raw'', s4)]))"
    using c e by (auto simp: main_convert_def Let_def write_sheets_def m0 to_excel_empty)
  have b: "marks_rows \<noteq> [] \<longrightarrow>
        main_convert final =
          bind_res (main_results (DataFrame results_rows) (marks_frame marks_rows)) (\<lambda>df_sorted.
            write_sheets df_sorted
              (reset_index ''grade_'' (pivot_table (marks_frame marks_rows) ''grade''))
              (marks_frame marks_rows) (raw_frame final))"
    using c e by (simp add: main_convert_def Let_def)
  have d: "header s = unique (concat (map (map fst) results_rows)) \<and>
        length (sheet_rows s) = length final \<and>
        (\<forall>i < length final. \<forall>j < length (header s).
           xl_of (case map_of (results_row (final ! i)) (header s ! j) of
                    None \<Rightarrow> NaN | Some v \<Rightarrow> Val v) = Inr (sheet_rows s ! i ! j))"
    if "to_excel (DataFrame results_rows) = Inr s" for s
    using to_excel_cells [OF that] by (simp add: DataFrame_def rr)
  from rr a b d show ?thesis by blast
qed

theorem no_marks_no_reorder_witness:
  "collect placeholder_log [] [] = Inr (map results_row placeholder_log, []) \<and>
   main_convert placeholder_log =
     Inr [(''results'',
           \<lparr>header = [''student.hallticket'', ''result'', ''status'', ''hallticket''],
            sheet_rows =
              [[Str ''110624861002'', Empty, Str ''NO_RESULT'', Str ''110624861002''],
               [Str ''110624861001'', Empty, Str ''NO_RESULT'', Str ''110624861001'']]\<rparr>),
          (''grades'', \<lparr>header = [''hallticket''], sheet_rows = []\<rparr>),
          (''marks'', \<lparr>header = expected_mark_cols, sheet_rows = []\<rparr>),
          (''raw'',
           \<lparr>header = [''json''],
            sheet_rows = [[Str (json_dumps (placeholder ''110624861002''))],
                          [Str (json_dumps (placeholder ''110624861001''))]]\<rparr>)]"
proof -
  have h: "collect placeholder_log [] [] = Inr (map results_row placeholder_log, [])"
    by code_simp
  have e: "bind_res (to_excel (DataFrame (map results_row placeholder_log))) (\<lambda>s1.
          bind_res (to_excel (raw_frame placeholder_log)) (\<lambda>s4.
          Inr [(''results'', s1),
               (''grades'', \<lparr>header = [''hallticket''], sheet_rows = []\<rparr>),
               (''marks'', \<lparr>header = expected_mark_cols, sheet_rows = []\<rparr>),
               (''raw'', s4)])) =
     Inr [(''results'',
           \<lparr>header = [''student.hallticket'', ''result'', ''status'', ''hallticket''],
            sheet_rows =
              [[Str ''110624861002'', Empty, Str ''NO_RESULT'', Str ''110624861002''],
               [Str ''110624861001'', Empty, Str ''NO_RESULT'', Str ''110624861001'']]\<rparr>),
          (''grades'', \<lparr>header = [''hallticket''], sheet_rows = []\<rparr>),
          (''marks'', \<lparr>header = expected_mark_cols, sheet_rows = []\<rparr>),
          (''raw'',
           \<lparr>header = [''json''],
            sheet_rows = [[Str (json_dumps (placeholder ''110624861002''))],
                          [Str (json_dumps (placeholder ''110624861001''))]]\<rparr>)]"
    by code_simp
  from no_marks_no_reorder [OF h] have "main_convert placeholder_log =
          bind_res (to_excel (DataFrame (map results_row placeholder_log))) (\<lambda>s1.
          bind_res (to_excel (raw_frame placeholder_log)) (\<lambda>s4.
          Inr [(''results'', s1),
               (''grades'', \<lparr>header = [''hallticket''], sheet_rows = []\<rparr>),
               (''marks'', \<lparr>header = expected_mark_cols, sheet_rows = []\<rparr>),
               (''raw'', s4)]))"
    by blast
  with h e show ?thesis by simp
qed

section \<open>The column order of the results sheet\<close>

lemma distinct_singleton: "distinct xs \<Longrightarrow> set xs = {x} \<Longrightarrow> xs = [x]"
  by (cases xs; cases "tl xs") auto

lemma known_minus_core: "c \<in> known_columns \<Longrightarrow> c \<notin> set core_pref \<Longrightarrow> c = ''student.hallticket''"
  unfolding known_columns_def core_pref_def by simp

lemma student_hallticket_not_core: "''student.hallticket'' \<notin> set core_pref"
  by (simp add: core_pref_def)

lemma wf_other_cols:
  assumes "list_all is_result_record items" "items \<noteq> []"
  shows "filter (\<lambda>c. c \<notin> set core_pref) (columns (results_frame items)) = [''student.hallticket'']"
    and "filter is_pivot_col (columns (results_frame items)) = []"
proof -
  let ?cols = "columns (results_frame items)"
  have k: "set ?cols \<subseteq> known_columns"
    unfolding results_frame_def using assms(1) by (rule wf_results_frame)
  have h: "''student.hallticket'' \<in> set ?cols"
    unfolding results_frame_def using wf_results_frame(3) [OF assms] by simp
  have d: "distinct ?cols" by (simp add: results_frame_def)
  have "set (filter (\<lambda>c. c \<notin> set core_pref) ?cols) = {''student.hallticket''}"
    using k h known_minus_core student_hallticket_not_core by auto
  moreover have "distinct (filter (\<lambda>c. c \<notin> set core_pref) ?cols)"
    using d by simp
  ultimately show "filter (\<lambda>c. c \<notin> set core_pref) ?cols = [''student.hallticket'']"
    by (intro distinct_singleton)
  show "filter is_pivot_col ?cols = []"
    using k known_not_pivot by (auto simp: filter_empty_conv)
qed

text \<open>
  Claim C4, as amended. For a log of result records with at least one mark row, the final
  conversion of \<^verbatim>\<open>main\<close> returns a workbook whose results sheet has this header: the core
  labels \<^verbatim>\<open>hallticket\<close>, \<^verbatim>\<open>student.name\<close>, \<^verbatim>\<open>student.father\<close>, \<^verbatim>\<open>student.gender\<close>,
  \<^verbatim>\<open>student.course\<close>, \<^verbatim>\<open>result\<close>, \<^verbatim>\<open>status\<close> that occur in the flattened records, in
  that order; then, for each subject code by falling number of mark rows with that code,
  its grade, credits and subject columns together; then the leftover pivot columns in
  alphabetical order (a log of result records has none); then the remaining labels, which
  here is \<^verbatim>\<open>student.hallticket\<close> alone.
\<close>

theorem main_column_order:
  "list_all is_result_record items \<Longrightarrow> all_codes items \<noteq> [] \<Longrightarrow>
   \<exists>wb s. main_convert items = Inr wb \<and> map_of wb ''results'' = Some s \<and>
     header s =
       filter (\<lambda>c. c \<in> set (columns (results_frame items))) core_pref @
       concat (map code_columns (value_counts_index (all_codes items))) @
       sort (filter is_pivot_col (columns (results_frame items))) @
       filter (\<lambda>c. c \<notin> set core_pref \<and> \<not> is_pivot_col c) (columns (results_frame items)) \<and>
     set (value_counts_index (all_codes items)) = set (all_codes items) \<and>
     distinct (value_counts_index (all_codes items)) \<and>
     sorted_wrt (\<lambda>a b. count_list (all_codes items) b \<le> count_list (all_codes items) a)
       (value_counts_index (all_codes items)) \<and>
     filter is_pivot_col (columns (results_frame items)) = [] \<and>
     filter (\<lambda>c. c \<notin> set core_pref \<and> \<not> is_pivot_col c) (columns (results_frame items)) =
       [''student.hallticket'']"
proof -
  assume wf: "list_all is_result_record items" and mk: "all_codes items \<noteq> []"
  from mk have ne: "items \<noteq> []" by (rule all_codes_items)
  let ?cols = "columns (results_frame items)"
  from main_convert_wf [OF wf mk] obtain df' where
    conv: "main_convert items =
       Inr [(''results'', sheet_of df'),
            (''grades'', sheet_of (reset_index ''grade_'' (pivot_table (marks_frame_of items) ''grade''))),
            (''marks'', sheet_of (marks_frame_of items)),
            (''raw'', sheet_of (raw_frame items))]"
    and cols: "columns df' = columns (main_reordered (results_frame items) (marks_frame_of items))"
    by blast
  have piv: "filter is_pivot_col ?cols = []" using wf ne by (rule wf_other_cols)
  have np: "\<not> is_pivot_col c" if "c \<in> set ?cols" for c
    using piv that by (auto simp: filter_empty_conv)
  have oth: "filter (\<lambda>c. c \<notin> set core_pref \<and> \<not> is_pivot_col c) ?cols = filter (\<lambda>c. c \<notin> set core_pref) ?cols"
    using np by (intro filter_cong) auto
  have oth': "filter (\<lambda>c. c \<notin> set core_pref) ?cols = [''student.hallticket'']"
    using wf ne by (rule wf_other_cols)
  have hd: "header (sheet_of df') =
       filter (\<lambda>c. c \<in> set ?cols) core_pref @
       concat (map code_columns (value_counts_index (all_codes items))) @
       sort (filter is_pivot_col ?cols) @
       filter (\<lambda>c. c \<notin> set core_pref \<and> \<not> is_pivot_col c) ?cols"
    unfolding oth piv by (simp add: cols main_reordered_columns_wf [OF wf mk])
  have "sorted (map (\<lambda>c. - int (count_list (all_codes items) c)) (value_counts_index (all_codes items)))"
    by (rule value_counts_index_sorted)
  then have srt: "sorted_wrt (\<lambda>a b. count_list (all_codes items) b \<le> count_list (all_codes items) a)
       (value_counts_index (all_codes items))"
    by (simp add: sorted_map)
  from conv hd srt piv oth oth' show ?thesis by simp
qed


theorem main_column_order_witness:
  "list_all is_result_record freq_log \<and> all_codes freq_log \<noteq> [] \<and>
   count_list (all_codes freq_log) ''MATH101'' = 5 \<and>
   count_list (all_codes freq_log) ''PHYS201'' = 2 \<and>
   (\<exists>wb s. main_convert freq_log = Inr wb \<and> map_of wb ''results'' = Some s \<and>
      header s =
        [''hallticket'', ''student.name'', ''student.father'', ''student.gender'',
         ''student.course'', ''result'',
         ''grade_MATH101'', ''credits_MATH101'', ''subject_MATH101'',
         ''grade_PHYS201'', ''credits_PHYS201'', ''subject_PHYS201'',
         ''grade_ART101'', ''credits_ART101'', ''subject_ART101'',
         ''student.hallticket''])"
proof -
  have a: "list_all is_result_record freq_log" by code_simp
  have b: "all_codes freq_log \<noteq> []" by code_simp
  have c: "count_list (all_codes freq_log) ''MATH101'' = 5"
    "count_list (all_codes freq_log) ''PHYS201'' = 2"
    by code_simp+
  have d: "filter (\<lambda>c. c \<in> set (columns (results_frame freq_log))) core_pref @
       concat (map code_columns (value_counts_index (all_codes freq_log))) @
       sort (filter is_pivot_col (columns (results_frame freq_log))) @
       filter (\<lambda>c. c \<notin> set core_pref \<and> \<not> is_pivot_col c) (columns (results_frame freq_log)) =
        [''hallticket'', ''student.name'', ''student.father'', ''student.gender'',
         ''student.course'', ''result'',
         ''grade_MATH101'', ''credits_MATH101'', ''subject_MATH101'',
         ''grade_PHYS201'', ''credits_PHYS201'', ''subject_PHYS201'',
         ''grade_ART101'', ''credits_ART101'', ''subject_ART101'',
         ''student.hallticket'']"
    by code_simp
  from main_column_order [OF a b] obtain wb s where
    "main_convert freq_log = Inr wb" "map_of wb ''results'' = Some s"
    "header s =
       filter (\<lambda>c. c \<in> set (columns (results_frame freq_log))) core_pref @
       concat (map code_columns (value_counts_index (all_codes freq_log))) @
       sort (filter is_pivot_col (columns (results_frame freq_log))) @
       filter (\<lambda>c. c \<notin> set core_pref \<and> \<not> is_pivot_col c) (columns (results_frame freq_log))"
    by blast
  with a b c d show ?thesis by (simp only: simp_thms) blast
qed


text \<open>
  The claim as stated, for every log, fails when no record has a mark: the reordering is not
  run and the header keeps the order of the flattened keys, with \<^verbatim>\<open>hallticket\<close> last.
\<close>

theorem main_column_order_counterexample:
  "list_all is_result_record zero_mark_log \<and>
   main_convert zero_mark_log =
     Inr [(''results'',
           \<lparr>header = [''student.hallticket'', ''student.gender'', ''student.name'',
                      ''student.father'', ''student.course'', ''result'', ''hallticket''],
            sheet_rows = [[Str ''110624861001'', Str ''M'', Str ''A'', Str ''F'', Str ''BSC'', Empty,
                           Str ''110624861001'']]\<rparr>),
          (''grades'', \<lparr>header = [''hallticket''], sheet_rows = []\<rparr>),
          (''marks'', \<lparr>header = expected_mark_cols, sheet_rows = []\<rparr>),
          (''raw'',
           \<lparr>header = [''json''],
            sheet_rows = [[Str (json_dumps (mk_record ''110624861001'' ''A'' [] PNone))]]\<rparr>)]"
  by code_simp

end
